theory Spec2Isabelle
  imports Main "HOL-Library.Sublist"
begin

section \<open>Strings\<close>

text \<open>
  Source strings are modelled as \<^typ>\<open>string\<close>. The case conversions
  \<^verbatim>\<open>toUpperCase\<close> and \<^verbatim>\<open>toLowerCase\<close> are modelled on the ASCII letters
  (codes 97..122 and 65..90); every other character is left as it is.
  A JavaScript string value is truthy iff it is not the empty string.
\<close>

definition upper_char :: "char \<Rightarrow> char" where
  "upper_char c =
     (let n = (of_char c :: nat) in if 97 \<le> n \<and> n \<le> 122 then char_of (n - 32) else c)"

definition lower_char :: "char \<Rightarrow> char" where
  "lower_char c =
     (let n = (of_char c :: nat) in if 65 \<le> n \<and> n \<le> 90 then char_of (n + 32) else c)"

definition toUpperCase :: "string \<Rightarrow> string" where
  "toUpperCase s = map upper_char s"

definition toLowerCase :: "string \<Rightarrow> string" where
  "toLowerCase s = map lower_char s"

text \<open>\<^verbatim>\<open>s.includes(q)\<close>: \<open>q\<close> occurs in \<open>s\<close> as a contiguous substring.\<close>

definition str_includes :: "string \<Rightarrow> string \<Rightarrow> bool" where
  "str_includes s q = sublist q s"

text \<open>\<^verbatim>\<open>s.split(".")[0]\<close>: the part of \<open>s\<close> before its first dot (all of \<open>s\<close> if it has none).\<close>

definition split_dot_first :: "string \<Rightarrow> string" where
  "split_dot_first s = takeWhile (\<lambda>c. c \<noteq> CHR ''.'') s"

text \<open>\<^verbatim>\<open>x || ""\<close> on an optional string.\<close>

definition or_empty :: "string option \<Rightarrow> string" where
  "or_empty x = (case x of None \<Rightarrow> [] | Some s \<Rightarrow> s)"

text \<open>\<^verbatim>\<open>x || []\<close> on an optional array.\<close>

definition or_nil :: "'a list option \<Rightarrow> 'a list" where
  "or_nil x = (case x of None \<Rightarrow> [] | Some xs \<Rightarrow> xs)"

text \<open>Truthiness of an optional string: present and not empty.\<close>

definition truthy :: "string option \<Rightarrow> bool" where
  "truthy x = (case x of None \<Rightarrow> False | Some s \<Rightarrow> s \<noteq> [])"

section \<open>The insertion-ordered map of the store\<close>

text \<open>
  A JavaScript \<^verbatim>\<open>Map\<close> iterates in insertion order, and \<^verbatim>\<open>set\<close> on a key that is
  already present replaces the value in place. It is modelled as an association list
  with distinct keys.
\<close>

type_synonym ('k, 'v) jsmap = "('k \<times> 'v) list"

primrec map_set :: "'k \<Rightarrow> 'v \<Rightarrow> ('k, 'v) jsmap \<Rightarrow> ('k, 'v) jsmap" where
  "map_set k v [] = [(k, v)]"
| "map_set k v (p # ps) = (if fst p = k then (k, v) # ps else p # map_set k v ps)"

definition map_get :: "('k, 'v) jsmap \<Rightarrow> 'k \<Rightarrow> 'v option" where
  "map_get m k = map_of m k"

definition map_values :: "('k, 'v) jsmap \<Rightarrow> 'v list" where
  "map_values m = map snd m"

section \<open>The raw object graph (types.ts, STIX part)\<close>

record stix_external_reference =
  source_name :: string
  external_id :: "string option"
  url :: "string option"

record stix_kill_chain_phase =
  kill_chain_name :: string
  phase_name :: string

text \<open>
  One record stands for every \<^verbatim>\<open>StixObject\<close> subtype: the fields of the subtypes that
  an object does not carry are absent (\<open>None\<close>). The three reference fields of a
  relationship object are required by \<^verbatim>\<open>StixRelationship\<close> and are plain strings.
\<close>

record stix_object =
  obj_id :: string
  obj_type :: string
  obj_name :: "string option"
  obj_description :: "string option"
  external_references :: "stix_external_reference list option"
  x_mitre_deprecated :: "bool option"
  obj_revoked :: "bool option"
  kill_chain_phases :: "stix_kill_chain_phase list option"
  x_mitre_platforms :: "string list option"
  x_mitre_data_sources :: "string list option"
  x_mitre_detection :: "string option"
  x_mitre_is_subtechnique :: "bool option"
  x_mitre_shortname :: "string option"
  obj_aliases :: "string list option"
  x_mitre_data_source_ref :: "string option"
  relationship_type :: string
  source_ref :: string
  target_ref :: string

text \<open>A \<^verbatim>\<open>StixBundle\<close> is represented by its \<^verbatim>\<open>objects\<close> array.\<close>

type_synonym stix_bundle = "stix_object list"

section \<open>The entity model (types.ts, parsed part)\<close>

record attack_reference =
  ref_source :: string
  ref_url :: "string option"

record attack_technique =
  t_id :: string
  t_stixId :: string
  t_name :: string
  t_description :: string
  t_tactics :: "string list"
  t_platforms :: "string list"
  t_dataSources :: "string list"
  t_detection :: string
  t_isSubtechnique :: bool
  t_parentId :: "string option"
  t_deprecated :: bool
  t_revoked :: bool
  t_references :: "attack_reference list"

text \<open>
  The \<^verbatim>\<open>order\<close> field is declared a number, but the parser fills it from a property
  lookup on an object literal, which also finds the properties that every object
  inherits. So an order is a number or the value of an inherited property (a function,
  or the prototype object for \<^verbatim>\<open>__proto__\<close>), named here by its property name.
\<close>

datatype js_order = Num nat | Inherited string

record attack_tactic =
  ta_id :: string
  ta_stixId :: string
  ta_name :: string
  ta_shortName :: string
  ta_description :: string
  ta_order :: js_order

record attack_group =
  g_id :: string
  g_stixId :: string
  g_name :: string
  g_aliases :: "string list"
  g_description :: string
  g_deprecated :: bool
  g_revoked :: bool
  g_references :: "attack_reference list"

datatype software_type = Malware | Tool

record attack_software =
  s_id :: string
  s_stixId :: string
  s_name :: string
  s_type :: software_type
  s_aliases :: "string list"
  s_description :: string
  s_platforms :: "string list"
  s_deprecated :: bool
  s_revoked :: bool
  s_references :: "attack_reference list"

record attack_mitigation =
  m_id :: string
  m_stixId :: string
  m_name :: string
  m_description :: string
  m_deprecated :: bool
  m_revoked :: bool
  m_references :: "attack_reference list"

record attack_data_source =
  ds_id :: string
  ds_stixId :: string
  ds_name :: string
  ds_description :: string
  ds_platforms :: "string list"
  ds_references :: "attack_reference list"

record attack_data_component =
  dc_id :: string
  dc_stixId :: string
  dc_name :: string
  dc_description :: string
  dc_dataSourceId :: string

record attack_relationship =
  sourceRef :: string
  targetRef :: string
  relationshipType :: string
  r_description :: string

text \<open>The own properties of the object literal \<^verbatim>\<open>ENTERPRISE_TACTIC_ORDER\<close>.\<close>

definition ENTERPRISE_TACTIC_ORDER :: "(string \<times> nat) list" where
  "ENTERPRISE_TACTIC_ORDER =
     [(''reconnaissance'', 0),
      (''resource-development'', 1),
      (''initial-access'', 2),
      (''execution'', 3),
      (''persistence'', 4),
      (''privilege-escalation'', 5),
      (''defense-evasion'', 6),
      (''credential-access'', 7),
      (''discovery'', 8),
      (''lateral-movement'', 9),
      (''collection'', 10),
      (''command-and-control'', 11),
      (''exfiltration'', 12),
      (''impact'', 13)]"

text \<open>
  The property names that an object literal inherits from \<^verbatim>\<open>Object.prototype\<close>, and
  the lookup \<^verbatim>\<open>tacticOrder[shortName]\<close>: an own property first, then an inherited one,
  and \<^verbatim>\<open>undefined\<close> (here \<open>None\<close>) when there is neither.
\<close>

definition object_prototype_names :: "string list" where
  "object_prototype_names =
     [''constructor'', ''__defineGetter__'', ''__defineSetter__'', ''hasOwnProperty'',
      ''__lookupGetter__'', ''__lookupSetter__'', ''isPrototypeOf'',
      ''propertyIsEnumerable'', ''toString'', ''valueOf'', ''__proto__'',
      ''toLocaleString'']"

definition record_lookup :: "(string \<times> nat) list \<Rightarrow> string \<Rightarrow> js_order option" where
  "record_lookup tab k =
     (case map_of tab k of
        Some n \<Rightarrow> Some (Num n)
      | None \<Rightarrow> if k \<in> set object_prototype_names then Some (Inherited k) else None)"

section \<open>Sorting an array with a comparison function\<close>

text \<open>
  \<^verbatim>\<open>Array.prototype.sort\<close> with a comparison function, as the V8 engine of Node.js runs
  it on an array of fewer than 64 elements: the longest run at the start of the array
  that is already ascending, or strictly descending (then reversed), is extended to the
  whole array by binary insertion. (V8 sorts a longer array in such runs and merges them;
  the result is the same whenever the comparison function is a consistent ordering, and
  then it is the stable sort.) A comparison function gives a number or \<^verbatim>\<open>NaN\<close>, here
  \<open>None\<close>, and the sort reads \<^verbatim>\<open>NaN\<close> as 0.
\<close>

definition sort_compare :: "('a \<Rightarrow> 'a \<Rightarrow> int option) \<Rightarrow> 'a \<Rightarrow> 'a \<Rightarrow> int" where
  "sort_compare comparefn x y = (case comparefn x y of None \<Rightarrow> 0 | Some v \<Rightarrow> v)"

fun run_extend :: "('a \<Rightarrow> 'a \<Rightarrow> int) \<Rightarrow> bool \<Rightarrow> 'a \<Rightarrow> 'a list \<Rightarrow> nat" where
  "run_extend cmp descending previous [] = 0"
| "run_extend cmp descending previous (x # xs) =
     (let order = cmp x previous
      in if (if descending then order \<ge> 0 else order < 0) then 0
         else Suc (run_extend cmp descending x xs))"

definition count_and_make_run :: "('a \<Rightarrow> 'a \<Rightarrow> int) \<Rightarrow> 'a list \<Rightarrow> nat \<times> 'a list" where
  "count_and_make_run cmp xs =
     (case xs of
        [] \<Rightarrow> (0, [])
      | [x] \<Rightarrow> (1, [x])
      | x # y # rest \<Rightarrow>
          (let descending = (cmp y x < 0);
               n = 2 + run_extend cmp descending y rest
           in (n, if descending then rev (take n xs) @ drop n xs else xs)))"

function binary_search :: "('a \<Rightarrow> 'a \<Rightarrow> int) \<Rightarrow> 'a \<Rightarrow> 'a list \<Rightarrow> nat \<Rightarrow> nat \<Rightarrow> nat" where
  "binary_search cmp pivot arr left right =
     (if left < right then
        (if cmp pivot (arr ! (left + (right - left) div 2)) < 0
         then binary_search cmp pivot arr left (left + (right - left) div 2)
         else binary_search cmp pivot arr (left + (right - left) div 2 + 1) right)
      else left)"
  by pat_completeness auto
termination
  by (relation "measure (\<lambda>(cmp, pivot, arr, left, right). right - left)") auto

definition insert_pivot :: "('a \<Rightarrow> 'a \<Rightarrow> int) \<Rightarrow> 'a list \<Rightarrow> 'a \<Rightarrow> 'a list" where
  "insert_pivot cmp run pivot =
     (let left = binary_search cmp pivot run 0 (length run)
      in take left run @ pivot # drop left run)"

fun binary_insertion_sort :: "('a \<Rightarrow> 'a \<Rightarrow> int) \<Rightarrow> 'a list \<Rightarrow> 'a list \<Rightarrow> 'a list" where
  "binary_insertion_sort cmp run [] = run"
| "binary_insertion_sort cmp run (pivot # rest) =
     binary_insertion_sort cmp (insert_pivot cmp run pivot) rest"

definition js_sort :: "('a \<Rightarrow> 'a \<Rightarrow> int option) \<Rightarrow> 'a list \<Rightarrow> 'a list" where
  "js_sort comparefn xs =
     (if length xs < 2 then xs
      else (let cmp = sort_compare comparefn;
                run = count_and_make_run cmp xs
            in binary_insertion_sort cmp (take (fst run) (snd run)) (drop (fst run) (snd run))))"

section \<open>The parser (parser.ts)\<close>

definition getExternalId :: "stix_external_reference list option \<Rightarrow> string" where
  "getExternalId refs =
     (case refs of
        None \<Rightarrow> []
      | Some rs \<Rightarrow>
          (case find (\<lambda>r. source_name r = ''mitre-attack'') rs of
             None \<Rightarrow> []
           | Some mitreRef \<Rightarrow> or_empty (external_id mitreRef)))"

definition parseReferences :: "stix_external_reference list option \<Rightarrow> attack_reference list" where
  "parseReferences refs =
     (case refs of
        None \<Rightarrow> []
      | Some rs \<Rightarrow>
          map (\<lambda>r. \<lparr>ref_source = source_name r, ref_url = url r\<rparr>)
            (filter (\<lambda>r. truthy (url r)) rs))"

definition technique_of :: "stix_object \<Rightarrow> attack_technique" where
  "technique_of ap =
     (let eid = getExternalId (external_references ap);
          tactics = map phase_name
            (filter (\<lambda>kc. str_includes (kill_chain_name kc) ''attack'')
               (or_nil (kill_chain_phases ap)));
          isSubtechnique =
            (x_mitre_is_subtechnique ap = Some True \<or> CHR ''.'' \<in> set eid);
          parentId = (if isSubtechnique then Some (split_dot_first eid) else None)
      in \<lparr>t_id = eid,
          t_stixId = obj_id ap,
          t_name = or_empty (obj_name ap),
          t_description = or_empty (obj_description ap),
          t_tactics = tactics,
          t_platforms = or_nil (x_mitre_platforms ap),
          t_dataSources = or_nil (x_mitre_data_sources ap),
          t_detection = or_empty (x_mitre_detection ap),
          t_isSubtechnique = isSubtechnique,
          t_parentId = parentId,
          t_deprecated = (x_mitre_deprecated ap = Some True),
          t_revoked = (obj_revoked ap = Some True),
          t_references = parseReferences (external_references ap)\<rparr>)"

definition parseTechniques :: "stix_bundle \<Rightarrow> attack_technique list" where
  "parseTechniques bundle =
     map technique_of
       (filter (\<lambda>obj. obj_type obj = ''attack-pattern'' \<and> truthy (obj_name obj)) bundle)"

text \<open>
  \<^verbatim>\<open>tacticOrder[shortName] ?? 99\<close>, then the sort with \<^verbatim>\<open>(a, b) => a.order - b.order\<close>.
  The difference of two numbers is a number; a difference with a function or an object
  is \<^verbatim>\<open>NaN\<close>.
\<close>

definition order_difference :: "attack_tactic \<Rightarrow> attack_tactic \<Rightarrow> int option" where
  "order_difference a b =
     (case (ta_order a, ta_order b) of
        (Num x, Num y) \<Rightarrow> Some (int x - int y)
      | _ \<Rightarrow> None)"

definition tactic_of :: "(string \<times> nat) list \<Rightarrow> stix_object \<Rightarrow> attack_tactic" where
  "tactic_of tacticOrder t =
     (let eid = getExternalId (external_references t);
          shortName = or_empty (x_mitre_shortname t)
      in \<lparr>ta_id = eid,
          ta_stixId = obj_id t,
          ta_name = or_empty (obj_name t),
          ta_shortName = shortName,
          ta_description = or_empty (obj_description t),
          ta_order = (case record_lookup tacticOrder shortName of None \<Rightarrow> Num 99 | Some v \<Rightarrow> v)\<rparr>)"

definition parseTactics :: "stix_bundle \<Rightarrow> (string \<times> nat) list \<Rightarrow> attack_tactic list" where
  "parseTactics bundle tacticOrder =
     js_sort order_difference
       (map (tactic_of tacticOrder)
          (filter (\<lambda>obj. obj_type obj = ''x-mitre-tactic'' \<and> truthy (obj_name obj)) bundle))"

definition group_of :: "stix_object \<Rightarrow> attack_group" where
  "group_of g =
     \<lparr>g_id = getExternalId (external_references g),
      g_stixId = obj_id g,
      g_name = or_empty (obj_name g),
      g_aliases = or_nil (obj_aliases g),
      g_description = or_empty (obj_description g),
      g_deprecated = (x_mitre_deprecated g = Some True),
      g_revoked = (obj_revoked g = Some True),
      g_references = parseReferences (external_references g)\<rparr>"

definition parseGroups :: "stix_bundle \<Rightarrow> attack_group list" where
  "parseGroups bundle =
     map group_of
       (filter (\<lambda>obj. obj_type obj = ''intrusion-set'' \<and> truthy (obj_name obj)) bundle)"

definition software_of :: "software_type \<Rightarrow> stix_object \<Rightarrow> attack_software" where
  "software_of ty m =
     \<lparr>s_id = getExternalId (external_references m),
      s_stixId = obj_id m,
      s_name = or_empty (obj_name m),
      s_type = ty,
      s_aliases = or_nil (obj_aliases m),
      s_description = or_empty (obj_description m),
      s_platforms = or_nil (x_mitre_platforms m),
      s_deprecated = (x_mitre_deprecated m = Some True),
      s_revoked = (obj_revoked m = Some True),
      s_references = parseReferences (external_references m)\<rparr>"

definition parseSoftware :: "stix_bundle \<Rightarrow> attack_software list" where
  "parseSoftware bundle =
     (let malware = filter (\<lambda>obj. obj_type obj = ''malware'' \<and> truthy (obj_name obj)) bundle;
          tools = filter (\<lambda>obj. obj_type obj = ''tool'' \<and> truthy (obj_name obj)) bundle
      in map (software_of Malware) malware @ map (software_of Tool) tools)"

definition mitigation_of :: "stix_object \<Rightarrow> attack_mitigation" where
  "mitigation_of c =
     \<lparr>m_id = getExternalId (external_references c),
      m_stixId = obj_id c,
      m_name = or_empty (obj_name c),
      m_description = or_empty (obj_description c),
      m_deprecated = (x_mitre_deprecated c = Some True),
      m_revoked = (obj_revoked c = Some True),
      m_references = parseReferences (external_references c)\<rparr>"

definition parseMitigations :: "stix_bundle \<Rightarrow> attack_mitigation list" where
  "parseMitigations bundle =
     map mitigation_of
       (filter (\<lambda>obj. obj_type obj = ''course-of-action'' \<and> truthy (obj_name obj)) bundle)"

definition data_source_of :: "stix_object \<Rightarrow> attack_data_source" where
  "data_source_of ds =
     \<lparr>ds_id = getExternalId (external_references ds),
      ds_stixId = obj_id ds,
      ds_name = or_empty (obj_name ds),
      ds_description = or_empty (obj_description ds),
      ds_platforms = or_nil (x_mitre_platforms ds),
      ds_references = parseReferences (external_references ds)\<rparr>"

definition parseDataSources :: "stix_bundle \<Rightarrow> attack_data_source list" where
  "parseDataSources bundle =
     map data_source_of
       (filter (\<lambda>obj. obj_type obj = ''x-mitre-data-source'' \<and> truthy (obj_name obj)) bundle)"

definition data_component_of :: "stix_object \<Rightarrow> attack_data_component" where
  "data_component_of dc =
     \<lparr>dc_id = obj_id dc,
      dc_stixId = obj_id dc,
      dc_name = or_empty (obj_name dc),
      dc_description = or_empty (obj_description dc),
      dc_dataSourceId = or_empty (x_mitre_data_source_ref dc)\<rparr>"

definition parseDataComponents :: "stix_bundle \<Rightarrow> attack_data_component list" where
  "parseDataComponents bundle =
     map data_component_of
       (filter (\<lambda>obj. obj_type obj = ''x-mitre-data-component'' \<and> truthy (obj_name obj)) bundle)"

text \<open>\<^verbatim>\<open>!r.x_mitre_deprecated && !r.revoked\<close>: an absent flag is falsy.\<close>

definition relationship_of :: "stix_object \<Rightarrow> attack_relationship" where
  "relationship_of r =
     \<lparr>sourceRef = source_ref r,
      targetRef = target_ref r,
      relationshipType = relationship_type r,
      r_description = or_empty (obj_description r)\<rparr>"

definition parseRelationships :: "stix_bundle \<Rightarrow> attack_relationship list" where
  "parseRelationships bundle =
     map relationship_of
       (filter (\<lambda>r. x_mitre_deprecated r \<noteq> Some True \<and> obj_revoked r \<noteq> Some True)
          (filter (\<lambda>obj. obj_type obj = ''relationship'') bundle))"

section \<open>The index store (store.ts)\<close>

record store =
  techniques :: "(string, attack_technique) jsmap"
  techniquesByStixId :: "(string, attack_technique) jsmap"
  tactics :: "(string, attack_tactic) jsmap"
  tacticsByShortName :: "(string, attack_tactic) jsmap"
  groups :: "(string, attack_group) jsmap"
  groupsByStixId :: "(string, attack_group) jsmap"
  groupsByName :: "(string, attack_group) jsmap"
  software :: "(string, attack_software) jsmap"
  softwareByStixId :: "(string, attack_software) jsmap"
  softwareByName :: "(string, attack_software) jsmap"
  mitigations :: "(string, attack_mitigation) jsmap"
  mitigationsByStixId :: "(string, attack_mitigation) jsmap"
  dataSources :: "(string, attack_data_source) jsmap"
  dataSourcesByStixId :: "(string, attack_data_source) jsmap"
  dataSourcesByName :: "(string, attack_data_source) jsmap"
  dataComponents :: "attack_data_component list"
  relationships :: "attack_relationship list"
  loaded :: bool

text \<open>The store as its constructor leaves it.\<close>

definition new_store :: store where
  "new_store =
     \<lparr>techniques = [], techniquesByStixId = [],
      tactics = [], tacticsByShortName = [],
      groups = [], groupsByStixId = [], groupsByName = [],
      software = [], softwareByStixId = [], softwareByName = [],
      mitigations = [], mitigationsByStixId = [],
      dataSources = [], dataSourcesByStixId = [], dataSourcesByName = [],
      dataComponents = [], relationships = [], loaded = False\<rparr>"

text \<open>
  \<^verbatim>\<open>for (const x of xs) m.set(key(x), x)\<close>: one loop of \<^verbatim>\<open>indexBundle\<close>, on one map.
\<close>

definition index_by :: "('v \<Rightarrow> 'k) \<Rightarrow> 'v list \<Rightarrow> ('k, 'v) jsmap \<Rightarrow> ('k, 'v) jsmap" where
  "index_by key xs m = foldl (\<lambda>m x. map_set (key x) x m) m xs"

text \<open>
  The name index of groups and software: the lower-cased name, then every lower-cased
  alias, for each entity in turn.
\<close>

definition index_by_names ::
  "('v \<Rightarrow> string) \<Rightarrow> ('v \<Rightarrow> string list) \<Rightarrow> 'v list \<Rightarrow> (string, 'v) jsmap \<Rightarrow> (string, 'v) jsmap" where
  "index_by_names nm als xs m =
     foldl (\<lambda>m x. foldl (\<lambda>m alias. map_set (toLowerCase alias) x m)
                      (map_set (toLowerCase (nm x)) x m) (als x)) m xs"

definition indexBundle :: "stix_bundle \<Rightarrow> store \<Rightarrow> store" where
  "indexBundle bundle st =
     (let ts = parseTechniques bundle;
          tas = parseTactics bundle ENTERPRISE_TACTIC_ORDER;
          gs = parseGroups bundle;
          sws = parseSoftware bundle;
          ms = parseMitigations bundle;
          dss = parseDataSources bundle
      in st\<lparr>techniques := index_by t_id ts (techniques st),
            techniquesByStixId := index_by t_stixId ts (techniquesByStixId st),
            tactics := index_by ta_id tas (tactics st),
            tacticsByShortName := index_by ta_shortName tas (tacticsByShortName st),
            groups := index_by g_id gs (groups st),
            groupsByStixId := index_by g_stixId gs (groupsByStixId st),
            groupsByName := index_by_names g_name g_aliases gs (groupsByName st),
            software := index_by s_id sws (software st),
            softwareByStixId := index_by s_stixId sws (softwareByStixId st),
            softwareByName := index_by_names s_name s_aliases sws (softwareByName st),
            mitigations := index_by m_id ms (mitigations st),
            mitigationsByStixId := index_by m_stixId ms (mitigationsByStixId st),
            dataSources := index_by ds_id dss (dataSources st),
            dataSourcesByStixId := index_by ds_stixId dss (dataSourcesByStixId st),
            dataSourcesByName := index_by (\<lambda>ds. toLowerCase (ds_name ds)) dss (dataSourcesByName st),
            dataComponents := dataComponents st @ parseDataComponents bundle,
            relationships := relationships st @ parseRelationships bundle\<rparr>)"

text \<open>
  \<^verbatim>\<open>loadFromBundles\<close> takes a \<^verbatim>\<open>Map\<close> from matrix names to bundles and indexes the
  bundles in the map's iteration order.
\<close>

datatype matrix_type = Enterprise | Mobile | Ics

definition loadFromBundles :: "(matrix_type, stix_bundle) jsmap \<Rightarrow> store \<Rightarrow> store" where
  "loadFromBundles bundles st =
     (foldl (\<lambda>st bundle. indexBundle bundle st) st (map_values bundles))\<lparr>loaded := True\<rparr>"

subsection \<open>Technique queries\<close>

definition getTechnique :: "store \<Rightarrow> string \<Rightarrow> attack_technique option" where
  "getTechnique st tid = map_get (techniques st) (toUpperCase tid)"

definition getTechniqueByStixId :: "store \<Rightarrow> string \<Rightarrow> attack_technique option" where
  "getTechniqueByStixId st stixId = map_get (techniquesByStixId st) stixId"

definition getAllTechniques :: "store \<Rightarrow> bool \<Rightarrow> attack_technique list" where
  "getAllTechniques st includeDeprecated =
     (let all = map_values (techniques st)
      in if includeDeprecated then all
         else filter (\<lambda>t. \<not> t_deprecated t \<and> \<not> t_revoked t) all)"

record technique_opts =
  to_query :: "string option"
  to_tactic :: "string option"
  to_platform :: "string option"
  to_dataSource :: "string option"
  to_isSubtechnique :: "bool option"

text \<open>The predicates of the five filters of \<^verbatim>\<open>searchTechniques\<close>.\<close>

definition technique_matches_query :: "string \<Rightarrow> attack_technique \<Rightarrow> bool" where
  "technique_matches_query query t =
     (let q = toLowerCase query
      in str_includes (toLowerCase (t_name t)) q
         \<or> str_includes (toLowerCase (t_description t)) q
         \<or> str_includes (toLowerCase (t_id t)) q)"

definition technique_has_tactic :: "string \<Rightarrow> attack_technique \<Rightarrow> bool" where
  "technique_has_tactic tac t =
     list_ex (\<lambda>ta. toLowerCase ta = toLowerCase tac) (t_tactics t)"

definition technique_has_platform :: "string \<Rightarrow> attack_technique \<Rightarrow> bool" where
  "technique_has_platform pl t =
     list_ex (\<lambda>p. toLowerCase p = toLowerCase pl) (t_platforms t)"

definition technique_has_dataSource :: "string \<Rightarrow> attack_technique \<Rightarrow> bool" where
  "technique_has_dataSource dsrc t =
     list_ex (\<lambda>d. str_includes (toLowerCase d) (toLowerCase dsrc)) (t_dataSources t)"

text \<open>
  \<^verbatim>\<open>if (opts.f) results = results.filter(p)\<close>: the filter is applied when the field is
  a non-empty string.
\<close>

definition filter_if :: "string option \<Rightarrow> (string \<Rightarrow> 'a \<Rightarrow> bool) \<Rightarrow> 'a list \<Rightarrow> 'a list" where
  "filter_if opt p results =
     (case opt of
        None \<Rightarrow> results
      | Some v \<Rightarrow> if v \<noteq> [] then filter (p v) results else results)"

definition searchTechniques :: "store \<Rightarrow> technique_opts \<Rightarrow> attack_technique list" where
  "searchTechniques st opts =
     (let results = getAllTechniques st False;
          results = filter_if (to_query opts) technique_matches_query results;
          results = filter_if (to_tactic opts) technique_has_tactic results;
          results = filter_if (to_platform opts) technique_has_platform results;
          results = filter_if (to_dataSource opts) technique_has_dataSource results;
          results = (case to_isSubtechnique opts of
                       None \<Rightarrow> results
                     | Some b \<Rightarrow> filter (\<lambda>t. t_isSubtechnique t = b) results)
      in results)"

definition getSubtechniques :: "store \<Rightarrow> string \<Rightarrow> attack_technique list" where
  "getSubtechniques st parentId =
     filter (\<lambda>t. t_parentId t = Some (toUpperCase parentId)) (getAllTechniques st False)"

subsection \<open>Tactic queries\<close>

text \<open>The tactic objects are never falsy, so \<^verbatim>\<open>a || b\<close> is \<open>b\<close> exactly when \<open>a\<close> is undefined.\<close>

definition or_else :: "'a option \<Rightarrow> 'a option \<Rightarrow> 'a option" where
  "or_else a b = (case a of None \<Rightarrow> b | Some x \<Rightarrow> Some x)"

definition getTactic :: "store \<Rightarrow> string \<Rightarrow> attack_tactic option" where
  "getTactic st tid =
     or_else (map_get (tactics st) (toUpperCase tid))
             (map_get (tacticsByShortName st) (toLowerCase tid))"

definition getAllTactics :: "store \<Rightarrow> attack_tactic list" where
  "getAllTactics st = js_sort order_difference (map_values (tactics st))"

definition getTechniquesForTactic :: "store \<Rightarrow> string \<Rightarrow> attack_technique list" where
  "getTechniquesForTactic st tacticShortName =
     filter (technique_has_tactic tacticShortName) (getAllTechniques st False)"

subsection \<open>Group queries\<close>

definition getGroup :: "store \<Rightarrow> string \<Rightarrow> attack_group option" where
  "getGroup st idOrName =
     or_else (map_get (groups st) (toUpperCase idOrName))
             (map_get (groupsByName st) (toLowerCase idOrName))"

definition getAllGroups :: "store \<Rightarrow> bool \<Rightarrow> attack_group list" where
  "getAllGroups st includeDeprecated =
     (let all = map_values (groups st)
      in if includeDeprecated then all
         else filter (\<lambda>g. \<not> g_deprecated g \<and> \<not> g_revoked g) all)"

record group_opts =
  go_query :: "string option"
  go_technique :: "string option"

definition group_matches_query :: "string \<Rightarrow> attack_group \<Rightarrow> bool" where
  "group_matches_query query g =
     (let q = toLowerCase query
      in str_includes (toLowerCase (g_name g)) q
         \<or> str_includes (toLowerCase (g_description g)) q
         \<or> list_ex (\<lambda>a. str_includes (toLowerCase a) q) (g_aliases g))"

text \<open>
  The \<^verbatim>\<open>technique\<close> filter of \<^verbatim>\<open>searchGroups\<close> and \<^verbatim>\<open>searchSoftware\<close>: the entity is
  the source of a \<^verbatim>\<open>uses\<close> edge into the technique with that public ID; when the
  technique is unknown, or its internal ID is the empty string, nothing passes.
\<close>

definition uses_technique :: "store \<Rightarrow> ('a \<Rightarrow> string) \<Rightarrow> string \<Rightarrow> 'a \<Rightarrow> bool" where
  "uses_technique st stixId_of technique x =
     (case map_get (techniques st) (toUpperCase technique) of
        None \<Rightarrow> False
      | Some t \<Rightarrow>
          if t_stixId t \<noteq> [] then
            stixId_of x \<in> set (map sourceRef
              (filter (\<lambda>r. targetRef r = t_stixId t \<and> relationshipType r = ''uses'')
                 (relationships st)))
          else False)"

definition searchGroups :: "store \<Rightarrow> group_opts \<Rightarrow> attack_group list" where
  "searchGroups st opts =
     (let results = getAllGroups st False;
          results = filter_if (go_query opts) group_matches_query results;
          results = filter_if (go_technique opts) (uses_technique st g_stixId) results
      in results)"

text \<open>
  The composite queries return \<^verbatim>\<open>{technique, usage}\<close> objects, modelled as pairs, or
  \<^verbatim>\<open>{software}\<close> and \<^verbatim>\<open>{group}\<close> objects, modelled as the entity itself. The
  \<^verbatim>\<open>map\<close> to \<^verbatim>\<open>null\<close> followed by the \<^verbatim>\<open>filter\<close> of the non-null entries is
  \<^const>\<open>List.map_filter\<close>.
\<close>

definition getGroupTechniques :: "store \<Rightarrow> string \<Rightarrow> (attack_technique \<times> string) list" where
  "getGroupTechniques st groupStixId =
     List.map_filter
       (\<lambda>r. case map_get (techniquesByStixId st) (targetRef r) of
               None \<Rightarrow> None
             | Some technique \<Rightarrow>
                 if t_deprecated technique \<or> t_revoked technique then None
                 else Some (technique, r_description r))
       (filter (\<lambda>r. sourceRef r = groupStixId \<and> relationshipType r = ''uses'')
          (relationships st))"

definition getGroupSoftware :: "store \<Rightarrow> string \<Rightarrow> attack_software list" where
  "getGroupSoftware st groupStixId =
     List.map_filter
       (\<lambda>r. case map_get (softwareByStixId st) (targetRef r) of
               None \<Rightarrow> None
             | Some sw \<Rightarrow> Some sw)
       (filter (\<lambda>r. sourceRef r = groupStixId \<and> relationshipType r = ''uses'')
          (relationships st))"

subsection \<open>Software queries\<close>

definition getSoftware :: "store \<Rightarrow> string \<Rightarrow> attack_software option" where
  "getSoftware st idOrName =
     or_else (map_get (software st) (toUpperCase idOrName))
             (map_get (softwareByName st) (toLowerCase idOrName))"

definition getAllSoftware :: "store \<Rightarrow> bool \<Rightarrow> attack_software list" where
  "getAllSoftware st includeDeprecated =
     (let all = map_values (software st)
      in if includeDeprecated then all
         else filter (\<lambda>s. \<not> s_deprecated s \<and> \<not> s_revoked s) all)"

record software_opts =
  so_query :: "string option"
  so_technique :: "string option"
  so_type :: "software_type option"

definition software_matches_query :: "string \<Rightarrow> attack_software \<Rightarrow> bool" where
  "software_matches_query query s =
     (let q = toLowerCase query
      in str_includes (toLowerCase (s_name s)) q
         \<or> str_includes (toLowerCase (s_description s)) q
         \<or> list_ex (\<lambda>a. str_includes (toLowerCase a) q) (s_aliases s))"

definition searchSoftware :: "store \<Rightarrow> software_opts \<Rightarrow> attack_software list" where
  "searchSoftware st opts =
     (let results = getAllSoftware st False;
          results = (case so_type opts of
                       None \<Rightarrow> results
                     | Some ty \<Rightarrow> filter (\<lambda>s. s_type s = ty) results);
          results = filter_if (so_query opts) software_matches_query results;
          results = filter_if (so_technique opts) (uses_technique st s_stixId) results
      in results)"

definition getSoftwareTechniques :: "store \<Rightarrow> string \<Rightarrow> (attack_technique \<times> string) list" where
  "getSoftwareTechniques st swStixId =
     List.map_filter
       (\<lambda>r. case map_get (techniquesByStixId st) (targetRef r) of
               None \<Rightarrow> None
             | Some technique \<Rightarrow>
                 if t_deprecated technique \<or> t_revoked technique then None
                 else Some (technique, r_description r))
       (filter (\<lambda>r. sourceRef r = swStixId \<and> relationshipType r = ''uses'')
          (relationships st))"

definition getSoftwareGroups :: "store \<Rightarrow> string \<Rightarrow> attack_group list" where
  "getSoftwareGroups st swStixId =
     List.map_filter
       (\<lambda>r. case map_get (groupsByStixId st) (sourceRef r) of
               None \<Rightarrow> None
             | Some g \<Rightarrow> Some g)
       (filter (\<lambda>r. targetRef r = swStixId \<and> relationshipType r = ''uses'')
          (relationships st))"

subsection \<open>Mitigation queries\<close>

definition getMitigation :: "store \<Rightarrow> string \<Rightarrow> attack_mitigation option" where
  "getMitigation st mid = map_get (mitigations st) (toUpperCase mid)"

definition getAllMitigations :: "store \<Rightarrow> bool \<Rightarrow> attack_mitigation list" where
  "getAllMitigations st includeDeprecated =
     (let all = map_values (mitigations st)
      in if includeDeprecated then all
         else filter (\<lambda>m. \<not> m_deprecated m \<and> \<not> m_revoked m) all)"

definition searchMitigations :: "store \<Rightarrow> string \<Rightarrow> attack_mitigation list" where
  "searchMitigations st query =
     (let q = toLowerCase query
      in filter (\<lambda>m. str_includes (toLowerCase (m_name m)) q
                     \<or> str_includes (toLowerCase (m_description m)) q)
           (getAllMitigations st False))"

definition getMitigationsForTechnique :: "store \<Rightarrow> string \<Rightarrow> (attack_mitigation \<times> string) list" where
  "getMitigationsForTechnique st techniqueId =
     (case map_get (techniques st) (toUpperCase techniqueId) of
        None \<Rightarrow> []
      | Some tech \<Rightarrow>
          List.map_filter
            (\<lambda>r. case map_get (mitigationsByStixId st) (sourceRef r) of
                    None \<Rightarrow> None
                  | Some mitigation \<Rightarrow>
                      if m_deprecated mitigation \<or> m_revoked mitigation then None
                      else Some (mitigation, r_description r))
            (filter (\<lambda>r. targetRef r = t_stixId tech \<and> relationshipType r = ''mitigates'')
               (relationships st)))"

definition getTechniquesForMitigation :: "store \<Rightarrow> string \<Rightarrow> (attack_technique \<times> string) list" where
  "getTechniquesForMitigation st mitigationId =
     (case map_get (mitigations st) (toUpperCase mitigationId) of
        None \<Rightarrow> []
      | Some mit \<Rightarrow>
          List.map_filter
            (\<lambda>r. case map_get (techniquesByStixId st) (targetRef r) of
                    None \<Rightarrow> None
                  | Some technique \<Rightarrow>
                      if t_deprecated technique \<or> t_revoked technique then None
                      else Some (technique, r_description r))
            (filter (\<lambda>r. sourceRef r = m_stixId mit \<and> relationshipType r = ''mitigates'')
               (relationships st)))"

subsection \<open>Data source queries\<close>

definition getDataSource :: "store \<Rightarrow> string \<Rightarrow> attack_data_source option" where
  "getDataSource st idOrName =
     or_else (map_get (dataSources st) (toUpperCase idOrName))
             (map_get (dataSourcesByName st) (toLowerCase idOrName))"

definition getAllDataSources :: "store \<Rightarrow> attack_data_source list" where
  "getAllDataSources st = map_values (dataSources st)"

definition getDataComponents :: "store \<Rightarrow> attack_data_component list" where
  "getDataComponents st = dataComponents st"

definition getComponentsForDataSource :: "store \<Rightarrow> string \<Rightarrow> attack_data_component list" where
  "getComponentsForDataSource st dsStixId =
     filter (\<lambda>dc. dc_dataSourceId dc = dsStixId) (dataComponents st)"

definition getTechniquesDetectedByComponent :: "store \<Rightarrow> string \<Rightarrow> attack_technique list" where
  "getTechniquesDetectedByComponent st componentStixId =
     (let techStixIds = map targetRef
            (filter (\<lambda>r. sourceRef r = componentStixId \<and> relationshipType r = ''detects'')
               (relationships st))
      in List.map_filter
           (\<lambda>sid. case map_get (techniquesByStixId st) sid of
                     None \<Rightarrow> None
                   | Some t \<Rightarrow> if \<not> t_deprecated t \<and> \<not> t_revoked t then Some t else None)
           techStixIds)"

subsection \<open>Relationship helpers and statistics\<close>

definition getRelationships :: "store \<Rightarrow> attack_relationship list" where
  "getRelationships st = relationships st"

datatype direction = Source | Target | Both

definition getRelationshipsForObject :: "store \<Rightarrow> string \<Rightarrow> direction \<Rightarrow> attack_relationship list" where
  "getRelationshipsForObject st stixId dir =
     filter (\<lambda>r. case dir of
                   Source \<Rightarrow> sourceRef r = stixId
                 | Target \<Rightarrow> targetRef r = stixId
                 | Both \<Rightarrow> sourceRef r = stixId \<or> targetRef r = stixId)
       (relationships st)"

record stats =
  st_techniques :: nat
  st_tactics :: nat
  st_groups :: nat
  st_software :: nat
  st_mitigations :: nat
  st_dataSources :: nat
  st_relationships :: nat

definition getStats :: "store \<Rightarrow> stats" where
  "getStats st =
     \<lparr>st_techniques = length (getAllTechniques st False),
      st_tactics = length (getAllTactics st),
      st_groups = length (getAllGroups st False),
      st_software = length (getAllSoftware st False),
      st_mitigations = length (getAllMitigations st False),
      st_dataSources = length (getAllDataSources st),
      st_relationships = length (relationships st)\<rparr>"

section \<open>Cache, download and initialisation (loader.ts, store.ts)\<close>

text \<open>
  What \<^verbatim>\<open>JSON.parse\<close> or \<^verbatim>\<open>response.json()\<close> gives is cast to \<^verbatim>\<open>StixBundle\<close> without
  a check. A document is a falsy value (\<^verbatim>\<open>null\<close>, \<^verbatim>\<open>false\<close>, 0 or the empty string),
  some other value that has no \<^verbatim>\<open>objects\<close> array (such as \<^verbatim>\<open>{}\<close>), or a bundle. A value
  with an \<^verbatim>\<open>objects\<close> array is taken to be typed as \<^verbatim>\<open>StixBundle\<close> declares.
\<close>

datatype json_doc = JFalsy | JOther | JBundle stix_bundle

definition is_bundle :: "json_doc \<Rightarrow> bool" where
  "is_bundle d = (case d of JBundle b \<Rightarrow> True | _ \<Rightarrow> False)"

text \<open>
  The data directory, the clock and the remote server are the environment of
  \<^verbatim>\<open>initialize\<close>. A cache file is absent, holds text that \<^verbatim>\<open>JSON.parse\<close> rejects, or
  holds a document. The metadata file is absent, unusable (reading \<^verbatim>\<open>lastUpdated\<close>
  throws), or gives a time in milliseconds, \<open>None\<close> standing for an invalid date
  (\<^verbatim>\<open>NaN\<close>). \<open>remote\<close> is what a download of a matrix gives now: a document, or \<open>None\<close>
  when \<^verbatim>\<open>downloadMatrix\<close> throws before it writes the cache. Writing a file is taken to
  succeed.
\<close>

datatype cache_file = NoFile | Unparseable | Parsed json_doc

datatype meta_file = NoMeta | BadMeta | Meta "int option"

record env =
  cache :: "matrix_type \<Rightarrow> cache_file"
  metadata :: meta_file
  now :: int
  remote :: "matrix_type \<Rightarrow> json_doc option"

record mitre_config =
  dataDir :: string
  matrices :: "matrix_type list"
  updateInterval :: int

text \<open>
  The errors: a failed download of a matrix, the error that \<^verbatim>\<open>initialize\<close> throws around
  it (\<^verbatim>\<open>Failed to load ATT&CK data\<close>), and the \<^verbatim>\<open>TypeError\<close> of reading
  \<^verbatim>\<open>bundle.objects.filter\<close> on a document that is not a bundle.
\<close>

datatype error = DownloadFailed matrix_type | LoadFailed error | TypeError

text \<open>A comparison with \<^verbatim>\<open>NaN\<close> is false, so an invalid date is not stale.\<close>

definition isCacheStale :: "env \<Rightarrow> int \<Rightarrow> bool" where
  "isCacheStale e interval =
     (case metadata e of
        NoMeta \<Rightarrow> True
      | BadMeta \<Rightarrow> True
      | Meta None \<Rightarrow> False
      | Meta (Some lastUpdated) \<Rightarrow> now e - lastUpdated > interval * 1000)"

definition hasCachedData :: "env \<Rightarrow> matrix_type list \<Rightarrow> bool" where
  "hasCachedData e ms = list_all (\<lambda>m. cache e m \<noteq> NoFile) ms"

definition downloadMatrix :: "env \<Rightarrow> matrix_type \<Rightarrow> env \<times> (error + json_doc)" where
  "downloadMatrix e m =
     (case remote e m of
        None \<Rightarrow> (e, Inl (DownloadFailed m))
      | Some data \<Rightarrow> (e\<lparr>cache := (cache e)(m := Parsed data)\<rparr>, Inr data))"

fun download_loop ::
  "matrix_type list \<Rightarrow> env \<Rightarrow> (matrix_type, json_doc) jsmap
     \<Rightarrow> env \<times> (error + (matrix_type, json_doc) jsmap)" where
  "download_loop [] e bundles = (e, Inr bundles)"
| "download_loop (m # ms) e bundles =
     (case downloadMatrix e m of
        (e', Inl err) \<Rightarrow> (e', Inl err)
      | (e', Inr b) \<Rightarrow> download_loop ms e' (map_set m b bundles))"

definition downloadAllMatrices ::
  "env \<Rightarrow> matrix_type list \<Rightarrow> env \<times> (error + (matrix_type, json_doc) jsmap)" where
  "downloadAllMatrices e ms =
     (case download_loop ms e [] of
        (e', Inl err) \<Rightarrow> (e', Inl err)
      | (e', Inr bundles) \<Rightarrow> (e'\<lparr>metadata := Meta (Some (now e'))\<rparr>, Inr bundles))"

text \<open>
  \<^verbatim>\<open>loadCachedBundle\<close> returns whatever document the file holds; \<^verbatim>\<open>loadCachedBundles\<close>
  gives up on \<^verbatim>\<open>null\<close> and on any other falsy document (\<^verbatim>\<open>if (!bundle) return null\<close>).
\<close>

definition loadCachedBundle :: "env \<Rightarrow> matrix_type \<Rightarrow> json_doc option" where
  "loadCachedBundle e m =
     (case cache e m of NoFile \<Rightarrow> None | Unparseable \<Rightarrow> None | Parsed d \<Rightarrow> Some d)"

fun cached_loop ::
  "matrix_type list \<Rightarrow> env \<Rightarrow> (matrix_type, json_doc) jsmap
     \<Rightarrow> (matrix_type, json_doc) jsmap option" where
  "cached_loop [] e bundles = Some bundles"
| "cached_loop (m # ms) e bundles =
     (case loadCachedBundle e m of
        None \<Rightarrow> None
      | Some b \<Rightarrow> if b = JFalsy then None else cached_loop ms e (map_set m b bundles))"

definition loadCachedBundles ::
  "env \<Rightarrow> matrix_type list \<Rightarrow> (matrix_type, json_doc) jsmap option" where
  "loadCachedBundles e ms = cached_loop ms e []"

text \<open>
  The indexing loop of \<^verbatim>\<open>initialize\<close>, which is outside its \<^verbatim>\<open>try\<close>:
  \<^verbatim>\<open>indexBundle\<close> throws on a document that is not a bundle, at its first statement, and
  the bundles indexed before it stay in the store. \<^verbatim>\<open>loaded\<close> is set after the loop.
\<close>

fun index_loop :: "json_doc list \<Rightarrow> store \<Rightarrow> store \<times> error option" where
  "index_loop [] st = (st, None)"
| "index_loop (d # ds) st =
     (case d of
        JBundle bundle \<Rightarrow> index_loop ds (indexBundle bundle st)
      | JFalsy \<Rightarrow> (st, Some TypeError)
      | JOther \<Rightarrow> (st, Some TypeError))"

definition index_all :: "(matrix_type, json_doc) jsmap \<Rightarrow> store \<Rightarrow> store \<times> error option" where
  "index_all bundles st =
     (case index_loop (map_values bundles) st of
        (st', None) \<Rightarrow> (st'\<lparr>loaded := True\<rparr>, None)
      | (st', Some err) \<Rightarrow> (st', Some err))"

text \<open>
  \<^verbatim>\<open>initialize\<close> returns the environment and the store as it leaves them, and the error
  it throws, if any.
\<close>

definition initialize :: "mitre_config \<Rightarrow> env \<Rightarrow> store \<Rightarrow> env \<times> store \<times> error option" where
  "initialize cfg e st =
     (let bundles =
            (if hasCachedData e (matrices cfg) \<and> \<not> isCacheStale e (updateInterval cfg)
             then loadCachedBundles e (matrices cfg) else None)
      in case bundles of
           Some bs \<Rightarrow> (e, index_all bs st)
         | None \<Rightarrow>
             (case downloadAllMatrices e (matrices cfg) of
                (e', Inr bs) \<Rightarrow> (e', index_all bs st)
              | (e', Inl err) \<Rightarrow>
                  (case loadCachedBundles e' (matrices cfg) of
                     Some bs \<Rightarrow> (e', index_all bs st)
                   | None \<Rightarrow> (e', st, Some (LoadFailed err)))))"

section \<open>Notions used in the properties\<close>

text \<open>The store after a sequence of \<^verbatim>\<open>loadFromBundles\<close> calls on a new store.\<close>

definition loads :: "(matrix_type, stix_bundle) jsmap list \<Rightarrow> store" where
  "loads bss = foldl (\<lambda>st bundles. loadFromBundles bundles st) new_store bss"

text \<open>A map is keyed by \<open>key\<close> when every entry is stored under the key of its value.\<close>

definition keyed_by :: "('v \<Rightarrow> 'k) \<Rightarrow> ('k, 'v) jsmap \<Rightarrow> bool" where
  "keyed_by key m \<longleftrightarrow> distinct (map fst m) \<and> list_all (\<lambda>(k, v). k = key v) m"

text \<open>
  A filter field is passed by an entity when the field is absent or the empty string,
  or its predicate holds.
\<close>

definition passes :: "string option \<Rightarrow> (string \<Rightarrow> 'a \<Rightarrow> bool) \<Rightarrow> 'a \<Rightarrow> bool" where
  "passes opt p x = (case opt of None \<Rightarrow> True | Some v \<Rightarrow> v = [] \<or> p v x)"

text \<open>A sequence of \<^verbatim>\<open>set\<close> calls on one map, as a list of key-value pairs.\<close>

definition apply_sets :: "('k \<times> 'v) list \<Rightarrow> ('k, 'v) jsmap \<Rightarrow> ('k, 'v) jsmap" where
  "apply_sets us m = foldl (\<lambda>m u. map_set (fst u) (snd u) m) m us"

text \<open>The \<^verbatim>\<open>set\<close> calls that the name index receives for one entity.\<close>

definition name_sets :: "('v \<Rightarrow> string) \<Rightarrow> ('v \<Rightarrow> string list) \<Rightarrow> 'v \<Rightarrow> (string \<times> 'v) list" where
  "name_sets nm als x = (toLowerCase (nm x), x) # map (\<lambda>alias. (toLowerCase alias, x)) (als x)"

text \<open>
  Every document that the cache holds or the server gives for a configured matrix is a
  bundle.
\<close>

definition docs_are_bundles :: "env \<Rightarrow> matrix_type list \<Rightarrow> bool" where
  "docs_are_bundles e ms =
     list_all (\<lambda>m. (case cache e m of Parsed d \<Rightarrow> is_bundle d | _ \<Rightarrow> True)
                  \<and> (case remote e m of Some d \<Rightarrow> is_bundle d | None \<Rightarrow> True)) ms"

text \<open>A list of bundles as the documents of a matrix map.\<close>

definition as_docs :: "(matrix_type, stix_bundle) jsmap \<Rightarrow> (matrix_type, json_doc) jsmap" where
  "as_docs bs = map (\<lambda>(m, b). (m, JBundle b)) bs"

text \<open>The store after one load of a bundle, and after a second load of the same bundle.\<close>

definition load_once :: "store \<Rightarrow> matrix_type \<Rightarrow> stix_bundle \<Rightarrow> store" where
  "load_once st mx b = loadFromBundles [(mx, b)] st"

definition load_twice :: "store \<Rightarrow> matrix_type \<Rightarrow> stix_bundle \<Rightarrow> store" where
  "load_twice st mx b = loadFromBundles [(mx, b)] (loadFromBundles [(mx, b)] st)"

section \<open>Example inputs\<close>

text \<open>An object that carries nothing but (empty) required fields; the examples update it.\<close>

definition stix_blank :: stix_object where
  "stix_blank =
     \<lparr>obj_id = [], obj_type = [], obj_name = None, obj_description = None,
      external_references = None, x_mitre_deprecated = None, obj_revoked = None,
      kill_chain_phases = None, x_mitre_platforms = None, x_mitre_data_sources = None,
      x_mitre_detection = None, x_mitre_is_subtechnique = None, x_mitre_shortname = None,
      obj_aliases = None, x_mitre_data_source_ref = None,
      relationship_type = [], source_ref = [], target_ref = []\<rparr>"

definition mitre_ref :: "string \<Rightarrow> stix_external_reference" where
  "mitre_ref eid = \<lparr>source_name = ''mitre-attack'', external_id = Some eid, url = None\<rparr>"

text \<open>An attack pattern flagged as a sub-technique that has no external reference.\<close>

definition ex_flag_only :: stix_object where
  "ex_flag_only = stix_blank\<lparr>obj_id := ''attack-pattern--x'', obj_type := ''attack-pattern'',
      obj_name := Some ''X'', x_mitre_is_subtechnique := Some True\<rparr>"

text \<open>The sub-technique T1059.001 of the test bundles.\<close>

definition ex_sub :: stix_object where
  "ex_sub = stix_blank\<lparr>obj_id := ''attack-pattern--ps'', obj_type := ''attack-pattern'',
      obj_name := Some ''PowerShell'', external_references := Some [mitre_ref ''T1059.001''],
      kill_chain_phases := Some [\<lparr>kill_chain_name = ''mitre-attack'', phase_name = ''execution''\<rparr>]\<rparr>"

text \<open>The objects of the test bundles that the examples need.\<close>

definition ex_phase :: "string \<Rightarrow> stix_kill_chain_phase" where
  "ex_phase p = \<lparr>kill_chain_name = ''mitre-attack'', phase_name = p\<rparr>"

definition ex_t1059 :: stix_object where
  "ex_t1059 = stix_blank\<lparr>obj_id := ''attack-pattern--t1059'', obj_type := ''attack-pattern'',
      obj_name := Some ''Command and Scripting Interpreter'',
      obj_description := Some ''Adversaries may abuse command and script interpreters.'',
      external_references := Some [mitre_ref ''T1059''],
      kill_chain_phases := Some [ex_phase ''execution''],
      x_mitre_platforms := Some [''Windows'', ''Linux'']\<rparr>"

definition ex_t9999 :: stix_object where
  "ex_t9999 = stix_blank\<lparr>obj_id := ''attack-pattern--deprecated1'', obj_type := ''attack-pattern'',
      obj_name := Some ''Old Technique'',
      external_references := Some [mitre_ref ''T9999''],
      x_mitre_deprecated := Some True\<rparr>"

text \<open>An attack pattern whose external ID is written in lower case.\<close>

definition ex_lower :: stix_object where
  "ex_lower = stix_blank\<lparr>obj_id := ''attack-pattern--lower'', obj_type := ''attack-pattern'',
      obj_name := Some ''Lower'', external_references := Some [mitre_ref ''t1059'']\<rparr>"

definition ex_ta_execution :: stix_object where
  "ex_ta_execution = stix_blank\<lparr>obj_id := ''x-mitre-tactic--exec'', obj_type := ''x-mitre-tactic'',
      obj_name := Some ''Execution'', external_references := Some [mitre_ref ''TA0002''],
      x_mitre_shortname := Some ''execution''\<rparr>"

definition ex_ta_initial :: stix_object where
  "ex_ta_initial = stix_blank\<lparr>obj_id := ''x-mitre-tactic--ia'', obj_type := ''x-mitre-tactic'',
      obj_name := Some ''Initial Access'', external_references := Some [mitre_ref ''TA0001''],
      x_mitre_shortname := Some ''initial-access''\<rparr>"

text \<open>A tactic whose short name is not in the kill-chain table.\<close>

definition ex_ta_custom :: stix_object where
  "ex_ta_custom = stix_blank\<lparr>obj_id := ''x-mitre-tactic--custom'', obj_type := ''x-mitre-tactic'',
      obj_name := Some ''Custom Phase'', external_references := Some [mitre_ref ''TA9999''],
      x_mitre_shortname := Some ''custom-phase''\<rparr>"

text \<open>A tactic whose short name is a property name that every object inherits.\<close>

definition ex_ta_constructor :: stix_object where
  "ex_ta_constructor = stix_blank\<lparr>obj_id := ''x-mitre-tactic--ctor'', obj_type := ''x-mitre-tactic'',
      obj_name := Some ''Constructor'', external_references := Some [mitre_ref ''TA9998''],
      x_mitre_shortname := Some ''constructor''\<rparr>"

text \<open>A bundle of three tactics, that one between execution and initial access.\<close>

definition ex_tactic_bundle :: stix_bundle where
  "ex_tactic_bundle = [ex_ta_execution, ex_ta_constructor, ex_ta_initial]"

definition ex_apt28 :: stix_object where
  "ex_apt28 = stix_blank\<lparr>obj_id := ''intrusion-set--apt28'', obj_type := ''intrusion-set'',
      obj_name := Some ''APT28'', external_references := Some [mitre_ref ''G0007''],
      obj_aliases := Some [''Fancy Bear'', ''Sofacy'']\<rparr>"

definition ex_old_group :: stix_object where
  "ex_old_group = stix_blank\<lparr>obj_id := ''intrusion-set--old'', obj_type := ''intrusion-set'',
      obj_name := Some ''Old Group'', external_references := Some [mitre_ref ''G9999''],
      obj_revoked := Some True\<rparr>"

definition ex_mimikatz :: stix_object where
  "ex_mimikatz = stix_blank\<lparr>obj_id := ''malware--mimikatz'', obj_type := ''malware'',
      obj_name := Some ''Mimikatz'', external_references := Some [mitre_ref ''S0002'']\<rparr>"

text \<open>A malware object that is marked deprecated.\<close>

definition ex_old_rat :: stix_object where
  "ex_old_rat = stix_blank\<lparr>obj_id := ''malware--oldrat'', obj_type := ''malware'',
      obj_name := Some ''OldRat'', external_references := Some [mitre_ref ''S9999''],
      x_mitre_deprecated := Some True\<rparr>"

definition ex_m1038 :: stix_object where
  "ex_m1038 = stix_blank\<lparr>obj_id := ''course-of-action--m1038'', obj_type := ''course-of-action'',
      obj_name := Some ''Execution Prevention'', external_references := Some [mitre_ref ''M1038'']\<rparr>"

definition ex_old_mitigation :: stix_object where
  "ex_old_mitigation = stix_blank\<lparr>obj_id := ''course-of-action--old'', obj_type := ''course-of-action'',
      obj_name := Some ''Old Mitigation'', external_references := Some [mitre_ref ''M9999''],
      x_mitre_deprecated := Some True\<rparr>"

definition ex_rel :: "string \<Rightarrow> string \<Rightarrow> string \<Rightarrow> stix_object" where
  "ex_rel ty src tgt = stix_blank\<lparr>obj_id := ''relationship--x'', obj_type := ''relationship'',
      relationship_type := ty, source_ref := src, target_ref := tgt\<rparr>"

definition ex_bundle :: stix_bundle where
  "ex_bundle =
     [ex_t1059, ex_sub, ex_t9999, ex_ta_custom, ex_ta_execution, ex_ta_initial,
      ex_apt28, ex_old_group, ex_mimikatz, ex_old_rat, ex_m1038, ex_old_mitigation,
      ex_rel ''uses'' ''intrusion-set--apt28'' ''attack-pattern--t1059'',
      ex_rel ''uses'' ''intrusion-set--apt28'' ''malware--mimikatz'',
      ex_rel ''uses'' ''intrusion-set--apt28'' ''malware--oldrat'',
      ex_rel ''uses'' ''malware--mimikatz'' ''attack-pattern--t1059'',
      ex_rel ''uses'' ''intrusion-set--old'' ''malware--mimikatz'',
      ex_rel ''mitigates'' ''course-of-action--m1038'' ''attack-pattern--t1059'']"

definition ex_store :: store where
  "ex_store = loads [[(Enterprise, ex_bundle)]]"

text \<open>Filter sets for the three search operations.\<close>

definition ex_topts :: technique_opts where
  "ex_topts = \<lparr>to_query = Some ''POWERSHELL'', to_tactic = Some ''Execution'',
               to_platform = None, to_dataSource = Some [], to_isSubtechnique = Some True\<rparr>"

definition ex_gopts :: group_opts where
  "ex_gopts = \<lparr>go_query = Some ''fancy'', go_technique = Some ''t1059''\<rparr>"

definition ex_sopts :: software_opts where
  "ex_sopts = \<lparr>so_query = Some ''MIMI'', so_technique = Some ''T1059'', so_type = Some Malware\<rparr>"

text \<open>A parsed \<^verbatim>\<open>uses\<close> edge without a description.\<close>

definition ex_edge :: "string \<Rightarrow> string \<Rightarrow> attack_relationship" where
  "ex_edge a b = \<lparr>sourceRef = a, targetRef = b, relationshipType = ''uses'', r_description = []\<rparr>"

text \<open>
  Four environments for one configured matrix: a fresh cache, a stale cache with the
  server up, a stale cache with the server down, and no cache with the server down.
\<close>

definition ex_cfg :: mitre_config where
  "ex_cfg = \<lparr>dataDir = ''/tmp/test-mitre'', matrices = [Enterprise], updateInterval = 86400\<rparr>"

definition env_fresh :: env where
  "env_fresh = \<lparr>cache = (\<lambda>m. NoFile)(Enterprise := Parsed (JBundle [ex_apt28])),
                metadata = Meta (Some 0), now = 1000, remote = (\<lambda>m. None)\<rparr>"

definition env_stale_up :: env where
  "env_stale_up = \<lparr>cache = (\<lambda>m. NoFile)(Enterprise := Parsed (JBundle [ex_apt28])),
                   metadata = Meta (Some 0), now = 100000000,
                   remote = (\<lambda>m. Some (JBundle [ex_mimikatz]))\<rparr>"

definition env_stale_down :: env where
  "env_stale_down = \<lparr>cache = (\<lambda>m. NoFile)(Enterprise := Parsed (JBundle [ex_apt28])),
                     metadata = Meta (Some 0), now = 100000000, remote = (\<lambda>m. None)\<rparr>"

definition env_empty_down :: env where
  "env_empty_down = \<lparr>cache = (\<lambda>m. NoFile), metadata = NoMeta, now = 1000,
                     remote = (\<lambda>m. None)\<rparr>"

text \<open>
  Two configured matrices with a fresh cache and the server up; the cache file of the
  second matrix holds \<^verbatim>\<open>{}\<close>.
\<close>

definition ex_cfg2 :: mitre_config where
  "ex_cfg2 = \<lparr>dataDir = ''/tmp/test-mitre'', matrices = [Enterprise, Mobile],
              updateInterval = 86400\<rparr>"

definition env_bad_cache :: env where
  "env_bad_cache =
     \<lparr>cache = (\<lambda>m. NoFile)(Enterprise := Parsed (JBundle [ex_apt28]), Mobile := Parsed JOther),
      metadata = Meta (Some 0), now = 1000,
      remote = (\<lambda>m. Some (JBundle [ex_mimikatz]))\<rparr>"

section \<open>Verified properties\<close>

subsection \<open>Sub-techniques and their parent\<close>

lemma split_dot_first_nonempty:
  "split_dot_first s \<noteq> [] \<longleftrightarrow> s \<noteq> [] \<and> hd s \<noteq> CHR ''.''"
  by (cases s) (simp_all add: split_dot_first_def)

lemma technique_of_sub:
  "t_isSubtechnique (technique_of ap) \<longleftrightarrow>
     x_mitre_is_subtechnique ap = Some True \<or> CHR ''.'' \<in> set (t_id (technique_of ap))"
  by (simp add: technique_of_def Let_def)

lemma technique_of_parent:
  "t_parentId (technique_of ap) =
     (if t_isSubtechnique (technique_of ap) then Some (split_dot_first (t_id (technique_of ap)))
      else None)"
  by (simp add: technique_of_def Let_def)

text \<open>
  Claim C3, as the parser has it. For every technique \<open>t\<close> that \<open>parseTechniques\<close>
  produces from any bundle: if \<open>t\<close> is a sub-technique, its parent ID is present and is
  the public ID cut before its first dot (the whole public ID when it has no dot), and
  that parent ID is non-empty exactly when the public ID is non-empty and does not begin
  with a dot; if \<open>t\<close> is not a sub-technique its parent ID is absent; and every \<open>t\<close>
  whose public ID contains a dot is a sub-technique.
\<close>

theorem parseTechniques_subtechnique_invariant:
  assumes "t \<in> set (parseTechniques bundle)"
  shows "(t_isSubtechnique t \<longrightarrow>
            t_parentId t = Some (split_dot_first (t_id t))
            \<and> (split_dot_first (t_id t) \<noteq> [] \<longleftrightarrow> t_id t \<noteq> [] \<and> hd (t_id t) \<noteq> CHR ''.''))
       \<and> (\<not> t_isSubtechnique t \<longrightarrow> t_parentId t = None)
       \<and> (CHR ''.'' \<in> set (t_id t) \<longrightarrow> t_isSubtechnique t)"
proof -
  from assms obtain ap where t: "t = technique_of ap"
    by (auto simp: parseTechniques_def)
  show ?thesis
    unfolding t using technique_of_sub [of ap] technique_of_parent [of ap]
    by (simp add: split_dot_first_nonempty)
qed

text \<open>The invariant at the sub-technique T1059.001: its parent is T1059.\<close>

theorem parseTechniques_subtechnique_invariant_witness:
  "technique_of ex_sub \<in> set (parseTechniques [ex_flag_only, ex_sub])
   \<and> t_isSubtechnique (technique_of ex_sub)
   \<and> t_id (technique_of ex_sub) = ''T1059.001''
   \<and> t_parentId (technique_of ex_sub) = Some ''T1059''"
proof -
  have m: "technique_of ex_sub \<in> set (parseTechniques [ex_flag_only, ex_sub])"
    by code_simp
  have i: "t_id (technique_of ex_sub) = ''T1059.001''"
    by code_simp
  have s: "split_dot_first ''T1059.001'' = ''T1059''"
    by code_simp
  from parseTechniques_subtechnique_invariant [OF m] i s show ?thesis
    using m by simp
qed

text \<open>
  The parent ID of a sub-technique can be the empty string: an attack pattern with the
  sub-technique flag and no external reference is parsed into a sub-technique whose
  public ID and parent ID are both empty.
\<close>

theorem parseTechniques_parentId_empty_counterexample:
  "technique_of ex_flag_only \<in> set (parseTechniques [ex_flag_only])
   \<and> t_isSubtechnique (technique_of ex_flag_only)
   \<and> t_parentId (technique_of ex_flag_only) = Some []"
  by code_simp

subsection \<open>The insertion-ordered map\<close>

lemma map_of_map_set: "map_of (map_set k v m) = (map_of m)(k \<mapsto> v)"
  by (induction m) (auto simp: fun_eq_iff)

lemma keys_map_set:
  "map fst (map_set k v m) = (if k \<in> fst ` set m then map fst m else map fst m @ [k])"
  by (induction m) auto

lemma distinct_map_set:
  "distinct (map fst m) \<Longrightarrow> distinct (map fst (map_set k v m))"
  by (simp add: keys_map_set)

lemma set_map_set_subset: "set (map_set k v m) \<subseteq> insert (k, v) (set m)"
  by (induction m) auto

lemma map_set_absorb: "map_set k v (map_set k v' m) = map_set k v m"
  by (induction m) auto

lemma map_set_commute:
  "k \<noteq> k' \<Longrightarrow> k \<in> fst ` set m \<Longrightarrow>
     map_set k v (map_set k' v' m) = map_set k' v' (map_set k v m)"
  by (induction m) auto

lemma map_get_map_set: "map_get (map_set k v m) k' = (if k' = k then Some v else map_get m k')"
  by (simp add: map_get_def map_of_map_set)

lemma keyed_by_Nil: "keyed_by key []"
  by (simp add: keyed_by_def)

lemma keyed_by_map_set: "keyed_by key m \<Longrightarrow> keyed_by key (map_set (key x) x m)"
  unfolding keyed_by_def list_all_iff
  using set_map_set_subset [of "key x" x m] by (auto simp: distinct_map_set)

lemma keyed_by_index_by: "keyed_by key m \<Longrightarrow> keyed_by key (index_by key xs m)"
  unfolding index_by_def by (induction xs arbitrary: m) (simp_all add: keyed_by_map_set)

lemma keyed_by_lookup:
  "keyed_by key m \<Longrightarrow> v \<in> set (map_values m) \<Longrightarrow> map_get m (key v) = Some v"
  unfolding keyed_by_def map_values_def map_get_def list_all_iff by force

subsection \<open>Induction over the stores reached by loading\<close>

lemma loads_snoc: "loads (bss @ [bundles]) = loadFromBundles bundles (loads bss)"
  by (simp add: loads_def)

lemma loads_induct [consumes 0, case_names new index loaded]:
  assumes new: "P new_store"
      and index: "\<And>bundle st. P st \<Longrightarrow> P (indexBundle bundle st)"
      and loaded: "\<And>st. P st \<Longrightarrow> P (st\<lparr>loaded := True\<rparr>)"
  shows "P (loads bss)"
proof (induction bss rule: rev_induct)
  case Nil
  show ?case by (simp add: loads_def new)
next
  case (snoc bundles bss)
  have fold: "P st \<Longrightarrow> P (foldl (\<lambda>st bundle. indexBundle bundle st) st bs)" for st bs
    by (induction bs arbitrary: st) (simp_all add: index)
  show ?case
    unfolding loads_snoc loadFromBundles_def
    by (intro loaded fold snoc.IH)
qed

subsection \<open>Lookup of a technique by its public ID\<close>

lemma techniques_indexBundle:
  "techniques (indexBundle bundle st) = index_by t_id (parseTechniques bundle) (techniques st)"
  by (simp add: indexBundle_def Let_def)

lemma techniques_keyed: "keyed_by t_id (techniques (loads bss))"
proof (induction rule: loads_induct)
  case new
  show ?case by (simp add: new_store_def keyed_by_Nil)
next
  case (index b st)
  then show ?case by (simp add: techniques_indexBundle keyed_by_index_by)
next
  case (loaded st)
  then show ?case by simp
qed

text \<open>
  What the lookup does find: a technique of the public-ID index whose public ID has no
  lower-case letter, under every spelling of that ID.
\<close>

lemma getTechnique_upper_case_id:
  assumes "t \<in> set (getAllTechniques (loads bss) True)"
      and "toUpperCase (t_id t) = t_id t"
      and "toUpperCase s = toUpperCase (t_id t)"
  shows "getTechnique (loads bss) s = Some t"
  using assms keyed_by_lookup [OF techniques_keyed, of t bss]
  by (simp add: getTechnique_def getAllTechniques_def)

text \<open>
  Claim C2 does not hold of the code. \<^verbatim>\<open>getTechnique\<close> upper-cases the string it looks
  up, but \<^verbatim>\<open>indexBundle\<close> stores a technique under its public ID as parsed. A technique
  whose public ID is written \<^verbatim>\<open>t1059\<close> is in the store, listed by
  \<^verbatim>\<open>getAllTechniques\<close>, and is found neither under its own public ID nor under the
  upper-case spelling.
\<close>

theorem getTechnique_misses_lower_case_id:
  "technique_of ex_lower \<in> set (getAllTechniques (loads [[(Enterprise, [ex_lower])]]) True)
   \<and> t_id (technique_of ex_lower) = ''t1059''
   \<and> getTechnique (loads [[(Enterprise, [ex_lower])]]) ''t1059'' = None
   \<and> getTechnique (loads [[(Enterprise, [ex_lower])]]) ''T1059'' = None"
  by code_simp

subsection \<open>Default listings\<close>

lemma getAllTechniques_listing:
  "t \<in> set (getAllTechniques st False) \<longleftrightarrow>
     t \<in> set (map_values (techniques st)) \<and> \<not> t_deprecated t \<and> \<not> t_revoked t"
  "getAllTechniques st True = map_values (techniques st)"
  by (simp_all add: getAllTechniques_def)

lemma getAllGroups_listing:
  "g \<in> set (getAllGroups st False) \<longleftrightarrow>
     g \<in> set (map_values (groups st)) \<and> \<not> g_deprecated g \<and> \<not> g_revoked g"
  "getAllGroups st True = map_values (groups st)"
  by (simp_all add: getAllGroups_def)

lemma getAllSoftware_listing:
  "s \<in> set (getAllSoftware st False) \<longleftrightarrow>
     s \<in> set (map_values (software st)) \<and> \<not> s_deprecated s \<and> \<not> s_revoked s"
  "getAllSoftware st True = map_values (software st)"
  by (simp_all add: getAllSoftware_def)

lemma getAllMitigations_listing:
  "m \<in> set (getAllMitigations st False) \<longleftrightarrow>
     m \<in> set (map_values (mitigations st)) \<and> \<not> m_deprecated m \<and> \<not> m_revoked m"
  "getAllMitigations st True = map_values (mitigations st)"
  by (simp_all add: getAllMitigations_def)

text \<open>
  Claim C4. In every store, for techniques, groups, software and mitigations alike:
  an entity of the public-ID index with both flags false is in the default listing; an
  entity with a flag set is not in the default listing and is in the listing that
  includes deprecated entities.
\<close>

theorem getAll_default_listing:
  "(t \<in> set (map_values (techniques st)) \<longrightarrow>
      (\<not> t_deprecated t \<and> \<not> t_revoked t \<longrightarrow> t \<in> set (getAllTechniques st False))
      \<and> (t_deprecated t \<or> t_revoked t \<longrightarrow>
           t \<notin> set (getAllTechniques st False) \<and> t \<in> set (getAllTechniques st True)))
   \<and> (g \<in> set (map_values (groups st)) \<longrightarrow>
      (\<not> g_deprecated g \<and> \<not> g_revoked g \<longrightarrow> g \<in> set (getAllGroups st False))
      \<and> (g_deprecated g \<or> g_revoked g \<longrightarrow>
           g \<notin> set (getAllGroups st False) \<and> g \<in> set (getAllGroups st True)))
   \<and> (s \<in> set (map_values (software st)) \<longrightarrow>
      (\<not> s_deprecated s \<and> \<not> s_revoked s \<longrightarrow> s \<in> set (getAllSoftware st False))
      \<and> (s_deprecated s \<or> s_revoked s \<longrightarrow>
           s \<notin> set (getAllSoftware st False) \<and> s \<in> set (getAllSoftware st True)))
   \<and> (m \<in> set (map_values (mitigations st)) \<longrightarrow>
      (\<not> m_deprecated m \<and> \<not> m_revoked m \<longrightarrow> m \<in> set (getAllMitigations st False))
      \<and> (m_deprecated m \<or> m_revoked m \<longrightarrow>
           m \<notin> set (getAllMitigations st False) \<and> m \<in> set (getAllMitigations st True)))"
  unfolding getAllTechniques_listing getAllGroups_listing getAllSoftware_listing
    getAllMitigations_listing
  by blast

text \<open>The public-ID indices of the example store.\<close>

lemma ex_store_techniques:
  "map_values (techniques ex_store) =
     [technique_of ex_t1059, technique_of ex_sub, technique_of ex_t9999]"
  by code_simp

lemma ex_store_groups:
  "map_values (groups ex_store) = [group_of ex_apt28, group_of ex_old_group]"
  by code_simp

lemma ex_store_software:
  "map_values (software ex_store) =
     [software_of Malware ex_mimikatz, software_of Malware ex_old_rat]"
  by code_simp

lemma ex_store_mitigations:
  "map_values (mitigations ex_store) = [mitigation_of ex_m1038, mitigation_of ex_old_mitigation]"
  by code_simp

lemma ex_flags:
  "\<not> t_deprecated (technique_of ex_t1059)" "\<not> t_revoked (technique_of ex_t1059)"
  "t_deprecated (technique_of ex_t9999)"
  "\<not> g_deprecated (group_of ex_apt28)" "\<not> g_revoked (group_of ex_apt28)"
  "g_revoked (group_of ex_old_group)"
  "\<not> s_deprecated (software_of Malware ex_mimikatz)"
  "\<not> s_revoked (software_of Malware ex_mimikatz)"
  "s_deprecated (software_of Malware ex_old_rat)"
  "\<not> m_deprecated (mitigation_of ex_m1038)" "\<not> m_revoked (mitigation_of ex_m1038)"
  "m_deprecated (mitigation_of ex_old_mitigation)"
  by code_simp+

text \<open>The listings of the example store, which holds one retired entity of each kind.\<close>

theorem getAll_default_listing_witness:
  "technique_of ex_t1059 \<in> set (getAllTechniques ex_store False)
   \<and> technique_of ex_t9999 \<notin> set (getAllTechniques ex_store False)
   \<and> technique_of ex_t9999 \<in> set (getAllTechniques ex_store True)
   \<and> group_of ex_apt28 \<in> set (getAllGroups ex_store False)
   \<and> group_of ex_old_group \<notin> set (getAllGroups ex_store False)
   \<and> group_of ex_old_group \<in> set (getAllGroups ex_store True)
   \<and> software_of Malware ex_mimikatz \<in> set (getAllSoftware ex_store False)
   \<and> software_of Malware ex_old_rat \<notin> set (getAllSoftware ex_store False)
   \<and> software_of Malware ex_old_rat \<in> set (getAllSoftware ex_store True)
   \<and> mitigation_of ex_m1038 \<in> set (getAllMitigations ex_store False)
   \<and> mitigation_of ex_old_mitigation \<notin> set (getAllMitigations ex_store False)
   \<and> mitigation_of ex_old_mitigation \<in> set (getAllMitigations ex_store True)"
  using getAll_default_listing
         [of "technique_of ex_t1059" ex_store "group_of ex_apt28"
             "software_of Malware ex_mimikatz" "mitigation_of ex_m1038"]
        getAll_default_listing
         [of "technique_of ex_t9999" ex_store "group_of ex_old_group"
             "software_of Malware ex_old_rat" "mitigation_of ex_old_mitigation"]
  by (simp add: ex_store_techniques ex_store_groups ex_store_software ex_store_mitigations
        ex_flags)

subsection \<open>Search filters\<close>

lemma filter_if_passes: "filter_if opt p xs = filter (passes opt p) xs"
  by (cases opt) (auto simp: filter_if_def passes_def intro: filter_cong)

lemma filter_if_empty: "filter_if (Some []) p xs = filter_if None p xs"
  by (simp add: filter_if_def)

lemma passes_iff: "passes opt p x \<longleftrightarrow> (\<forall>q. opt = Some q \<longrightarrow> q \<noteq> [] \<longrightarrow> p q x)"
  by (cases opt) (auto simp: passes_def)

lemma searchTechniques_filter:
  "searchTechniques st opts =
     filter (\<lambda>t. passes (to_query opts) technique_matches_query t
                \<and> passes (to_tactic opts) technique_has_tactic t
                \<and> passes (to_platform opts) technique_has_platform t
                \<and> passes (to_dataSource opts) technique_has_dataSource t
                \<and> (case to_isSubtechnique opts of None \<Rightarrow> True | Some b \<Rightarrow> t_isSubtechnique t = b))
       (getAllTechniques st False)"
  by (cases "to_isSubtechnique opts")
     (auto simp: searchTechniques_def Let_def filter_if_passes intro: filter_cong)

lemma searchGroups_filter:
  "searchGroups st opts =
     filter (\<lambda>g. passes (go_query opts) group_matches_query g
                \<and> passes (go_technique opts) (uses_technique st g_stixId) g)
       (getAllGroups st False)"
  by (auto simp: searchGroups_def Let_def filter_if_passes intro: filter_cong)

lemma searchSoftware_filter:
  "searchSoftware st opts =
     filter (\<lambda>s. (case so_type opts of None \<Rightarrow> True | Some ty \<Rightarrow> s_type s = ty)
                \<and> passes (so_query opts) software_matches_query s
                \<and> passes (so_technique opts) (uses_technique st s_stixId) s)
       (getAllSoftware st False)"
  by (cases "so_type opts")
     (auto simp: searchSoftware_def Let_def filter_if_passes intro: filter_cong)

lemma searchTechniques_member:
  "t \<in> set (searchTechniques st opts) \<longleftrightarrow>
     t \<in> set (getAllTechniques st False)
     \<and> (\<forall>q. to_query opts = Some q \<longrightarrow> q \<noteq> [] \<longrightarrow> technique_matches_query q t)
     \<and> (\<forall>q. to_tactic opts = Some q \<longrightarrow> q \<noteq> [] \<longrightarrow> technique_has_tactic q t)
     \<and> (\<forall>q. to_platform opts = Some q \<longrightarrow> q \<noteq> [] \<longrightarrow> technique_has_platform q t)
     \<and> (\<forall>q. to_dataSource opts = Some q \<longrightarrow> q \<noteq> [] \<longrightarrow> technique_has_dataSource q t)
     \<and> (\<forall>b. to_isSubtechnique opts = Some b \<longrightarrow> t_isSubtechnique t = b)"
  unfolding searchTechniques_filter passes_iff [symmetric]
  by (cases "to_isSubtechnique opts") auto

lemma searchGroups_member:
  "g \<in> set (searchGroups st opts) \<longleftrightarrow>
     g \<in> set (getAllGroups st False)
     \<and> (\<forall>q. go_query opts = Some q \<longrightarrow> q \<noteq> [] \<longrightarrow> group_matches_query q g)
     \<and> (\<forall>q. go_technique opts = Some q \<longrightarrow> q \<noteq> [] \<longrightarrow> uses_technique st g_stixId q g)"
  unfolding searchGroups_filter passes_iff [symmetric]
  by auto

lemma searchSoftware_member:
  "s \<in> set (searchSoftware st opts) \<longleftrightarrow>
     s \<in> set (getAllSoftware st False)
     \<and> (\<forall>ty. so_type opts = Some ty \<longrightarrow> s_type s = ty)
     \<and> (\<forall>q. so_query opts = Some q \<longrightarrow> q \<noteq> [] \<longrightarrow> software_matches_query q s)
     \<and> (\<forall>q. so_technique opts = Some q \<longrightarrow> q \<noteq> [] \<longrightarrow> uses_technique st s_stixId q s)"
  unfolding searchSoftware_filter passes_iff [symmetric]
  by (cases "so_type opts") auto


lemma matches_query_unfold:
  "technique_matches_query q t \<longleftrightarrow>
     str_includes (toLowerCase (t_name t)) (toLowerCase q)
     \<or> str_includes (toLowerCase (t_description t)) (toLowerCase q)
     \<or> str_includes (toLowerCase (t_id t)) (toLowerCase q)"
  "group_matches_query q g \<longleftrightarrow>
     str_includes (toLowerCase (g_name g)) (toLowerCase q)
     \<or> str_includes (toLowerCase (g_description g)) (toLowerCase q)
     \<or> (\<exists>a \<in> set (g_aliases g). str_includes (toLowerCase a) (toLowerCase q))"
  "software_matches_query q s \<longleftrightarrow>
     str_includes (toLowerCase (s_name s)) (toLowerCase q)
     \<or> str_includes (toLowerCase (s_description s)) (toLowerCase q)
     \<or> (\<exists>a \<in> set (s_aliases s). str_includes (toLowerCase a) (toLowerCase q))"
  by (simp_all add: technique_matches_query_def group_matches_query_def
        software_matches_query_def Let_def list_ex_iff)

text \<open>
  Claim C5. In every store, an entity is in the result of a search iff it is in the
  default listing (so neither deprecated nor revoked) and satisfies every filter that
  is present, a string filter being present when it is given and not the empty string.
  The keyword filter holds when the lower-cased keyword is a substring of the
  lower-cased name, description or public ID of a technique, or of the lower-cased name,
  description or some alias of a group or of a software entity.
\<close>

theorem search_is_conjunction_of_filters:
  "(t \<in> set (searchTechniques st topts) \<longleftrightarrow>
     t \<in> set (getAllTechniques st False)
     \<and> (\<forall>q. to_query topts = Some q \<longrightarrow> q \<noteq> [] \<longrightarrow> technique_matches_query q t)
     \<and> (\<forall>q. to_tactic topts = Some q \<longrightarrow> q \<noteq> [] \<longrightarrow> technique_has_tactic q t)
     \<and> (\<forall>q. to_platform topts = Some q \<longrightarrow> q \<noteq> [] \<longrightarrow> technique_has_platform q t)
     \<and> (\<forall>q. to_dataSource topts = Some q \<longrightarrow> q \<noteq> [] \<longrightarrow> technique_has_dataSource q t)
     \<and> (\<forall>b. to_isSubtechnique topts = Some b \<longrightarrow> t_isSubtechnique t = b))
   \<and> (g \<in> set (searchGroups st gopts) \<longleftrightarrow>
     g \<in> set (getAllGroups st False)
     \<and> (\<forall>q. go_query gopts = Some q \<longrightarrow> q \<noteq> [] \<longrightarrow> group_matches_query q g)
     \<and> (\<forall>q. go_technique gopts = Some q \<longrightarrow> q \<noteq> [] \<longrightarrow> uses_technique st g_stixId q g))
   \<and> (s \<in> set (searchSoftware st sopts) \<longleftrightarrow>
     s \<in> set (getAllSoftware st False)
     \<and> (\<forall>ty. so_type sopts = Some ty \<longrightarrow> s_type s = ty)
     \<and> (\<forall>q. so_query sopts = Some q \<longrightarrow> q \<noteq> [] \<longrightarrow> software_matches_query q s)
     \<and> (\<forall>q. so_technique sopts = Some q \<longrightarrow> q \<noteq> [] \<longrightarrow> uses_technique st s_stixId q s))
   \<and> (technique_matches_query q t \<longleftrightarrow>
     str_includes (toLowerCase (t_name t)) (toLowerCase q)
     \<or> str_includes (toLowerCase (t_description t)) (toLowerCase q)
     \<or> str_includes (toLowerCase (t_id t)) (toLowerCase q))
   \<and> (group_matches_query q g \<longleftrightarrow>
     str_includes (toLowerCase (g_name g)) (toLowerCase q)
     \<or> str_includes (toLowerCase (g_description g)) (toLowerCase q)
     \<or> (\<exists>a \<in> set (g_aliases g). str_includes (toLowerCase a) (toLowerCase q)))
   \<and> (software_matches_query q s \<longleftrightarrow>
     str_includes (toLowerCase (s_name s)) (toLowerCase q)
     \<or> str_includes (toLowerCase (s_description s)) (toLowerCase q)
     \<or> (\<exists>a \<in> set (s_aliases s). str_includes (toLowerCase a) (toLowerCase q)))"
  by (intro conjI searchTechniques_member searchGroups_member searchSoftware_member
        matches_query_unfold)

text \<open>
  Three searches of the example store, each with every hypothesis met: the keyword and
  the other string filters are written in another letter case than the data.
\<close>

theorem search_is_conjunction_of_filters_witness:
  "technique_of ex_sub \<in> set (getAllTechniques ex_store False)
   \<and> technique_matches_query ''POWERSHELL'' (technique_of ex_sub)
   \<and> technique_has_tactic ''Execution'' (technique_of ex_sub)
   \<and> t_isSubtechnique (technique_of ex_sub)
   \<and> technique_of ex_sub \<in> set (searchTechniques ex_store ex_topts)
   \<and> group_of ex_apt28 \<in> set (getAllGroups ex_store False)
   \<and> group_matches_query ''fancy'' (group_of ex_apt28)
   \<and> uses_technique ex_store g_stixId ''t1059'' (group_of ex_apt28)
   \<and> group_of ex_apt28 \<in> set (searchGroups ex_store ex_gopts)
   \<and> software_of Malware ex_mimikatz \<in> set (getAllSoftware ex_store False)
   \<and> s_type (software_of Malware ex_mimikatz) = Malware
   \<and> software_matches_query ''MIMI'' (software_of Malware ex_mimikatz)
   \<and> uses_technique ex_store s_stixId ''T1059'' (software_of Malware ex_mimikatz)
   \<and> software_of Malware ex_mimikatz \<in> set (searchSoftware ex_store ex_sopts)"
proof -
  have o: "to_query ex_topts = Some ''POWERSHELL''" "to_tactic ex_topts = Some ''Execution''"
    "to_platform ex_topts = None" "to_dataSource ex_topts = Some []"
    "to_isSubtechnique ex_topts = Some True"
    "go_query ex_gopts = Some ''fancy''" "go_technique ex_gopts = Some ''t1059''"
    "so_query ex_sopts = Some ''MIMI''" "so_technique ex_sopts = Some ''T1059''"
    "so_type ex_sopts = Some Malware"
    by (simp_all add: ex_topts_def ex_gopts_def ex_sopts_def)
  have f: "technique_of ex_sub \<in> set (getAllTechniques ex_store False)"
    "technique_matches_query ''POWERSHELL'' (technique_of ex_sub)"
    "technique_has_tactic ''Execution'' (technique_of ex_sub)"
    "t_isSubtechnique (technique_of ex_sub)"
    "group_of ex_apt28 \<in> set (getAllGroups ex_store False)"
    "group_matches_query ''fancy'' (group_of ex_apt28)"
    "uses_technique ex_store g_stixId ''t1059'' (group_of ex_apt28)"
    "software_of Malware ex_mimikatz \<in> set (getAllSoftware ex_store False)"
    "s_type (software_of Malware ex_mimikatz) = Malware"
    "software_matches_query ''MIMI'' (software_of Malware ex_mimikatz)"
    "uses_technique ex_store s_stixId ''T1059'' (software_of Malware ex_mimikatz)"
    by code_simp+
  note inst = search_is_conjunction_of_filters
         [of "technique_of ex_sub" ex_store ex_topts "group_of ex_apt28" ex_gopts
             "software_of Malware ex_mimikatz" ex_sopts "[]"]
  have "technique_of ex_sub \<in> set (searchTechniques ex_store ex_topts)"
    unfolding inst [THEN conjunct1] by (simp add: o f)
  moreover have "group_of ex_apt28 \<in> set (searchGroups ex_store ex_gopts)"
    unfolding inst [THEN conjunct2, THEN conjunct1] by (simp add: o f)
  moreover have "software_of Malware ex_mimikatz \<in> set (searchSoftware ex_store ex_sopts)"
    unfolding inst [THEN conjunct2, THEN conjunct2, THEN conjunct1] by (simp add: o f)
  ultimately show ?thesis
    using f by simp
qed

subsection \<open>Empty-string filters\<close>

lemma searchTechniques_empty_string:
  "searchTechniques st (opts\<lparr>to_query := Some []\<rparr>) = searchTechniques st (opts\<lparr>to_query := None\<rparr>)"
  "searchTechniques st (opts\<lparr>to_tactic := Some []\<rparr>) = searchTechniques st (opts\<lparr>to_tactic := None\<rparr>)"
  "searchTechniques st (opts\<lparr>to_platform := Some []\<rparr>) = searchTechniques st (opts\<lparr>to_platform := None\<rparr>)"
  "searchTechniques st (opts\<lparr>to_dataSource := Some []\<rparr>) = searchTechniques st (opts\<lparr>to_dataSource := None\<rparr>)"
  by (simp_all add: searchTechniques_def filter_if_empty)

lemma searchGroups_empty_string:
  "searchGroups st (gopts\<lparr>go_query := Some []\<rparr>) = searchGroups st (gopts\<lparr>go_query := None\<rparr>)"
  "searchGroups st (gopts\<lparr>go_technique := Some []\<rparr>) = searchGroups st (gopts\<lparr>go_technique := None\<rparr>)"
  by (simp_all add: searchGroups_def filter_if_empty)

lemma searchSoftware_empty_string:
  "searchSoftware st (sopts\<lparr>so_query := Some []\<rparr>) = searchSoftware st (sopts\<lparr>so_query := None\<rparr>)"
  "searchSoftware st (sopts\<lparr>so_technique := Some []\<rparr>) = searchSoftware st (sopts\<lparr>so_technique := None\<rparr>)"
  by (simp_all add: searchSoftware_def filter_if_empty)

lemma searchTechniques_empty_query_only:
  "searchTechniques st \<lparr>to_query = Some [], to_tactic = None, to_platform = None,
       to_dataSource = None, to_isSubtechnique = None\<rparr> = getAllTechniques st False"
  by (simp add: searchTechniques_def filter_if_def)

lemma searchMitigations_empty_query: "searchMitigations st [] = getAllMitigations st False"
  by (simp add: searchMitigations_def toLowerCase_def str_includes_def)

text \<open>
  Claim C10. In every search operation an optional string filter that is the empty
  string gives the result of the same search with that field omitted, whatever the
  other fields are. So a technique search whose only field is the empty keyword returns
  the default technique listing; and the mitigation search, whose keyword is not
  optional, returns the default mitigation listing on the empty keyword.
\<close>

theorem empty_string_filter_is_no_filter:
  "searchTechniques st (opts\<lparr>to_query := Some []\<rparr>) = searchTechniques st (opts\<lparr>to_query := None\<rparr>)
   \<and> searchTechniques st (opts\<lparr>to_tactic := Some []\<rparr>) = searchTechniques st (opts\<lparr>to_tactic := None\<rparr>)
   \<and> searchTechniques st (opts\<lparr>to_platform := Some []\<rparr>) = searchTechniques st (opts\<lparr>to_platform := None\<rparr>)
   \<and> searchTechniques st (opts\<lparr>to_dataSource := Some []\<rparr>) = searchTechniques st (opts\<lparr>to_dataSource := None\<rparr>)
   \<and> searchGroups st (gopts\<lparr>go_query := Some []\<rparr>) = searchGroups st (gopts\<lparr>go_query := None\<rparr>)
   \<and> searchGroups st (gopts\<lparr>go_technique := Some []\<rparr>) = searchGroups st (gopts\<lparr>go_technique := None\<rparr>)
   \<and> searchSoftware st (sopts\<lparr>so_query := Some []\<rparr>) = searchSoftware st (sopts\<lparr>so_query := None\<rparr>)
   \<and> searchSoftware st (sopts\<lparr>so_technique := Some []\<rparr>) = searchSoftware st (sopts\<lparr>so_technique := None\<rparr>)
   \<and> searchTechniques st \<lparr>to_query = Some [], to_tactic = None, to_platform = None,
         to_dataSource = None, to_isSubtechnique = None\<rparr> = getAllTechniques st False
   \<and> searchMitigations st [] = getAllMitigations st False"
  by (intro conjI searchTechniques_empty_string searchGroups_empty_string
        searchSoftware_empty_string searchTechniques_empty_query_only
        searchMitigations_empty_query)

subsection \<open>Composite queries\<close>

lemma set_map_filter:
  "set (List.map_filter f xs) = {y. \<exists>x \<in> set xs. f x = Some y}"
  by (induction xs) (auto split: option.splits)

lemma count_map_filter:
  "count_list (List.map_filter f xs) y = length (filter (\<lambda>x. f x = Some y) xs)"
  by (induction xs) (auto split: option.splits)

lemma getGroupSoftware_member:
  "sw \<in> set (getGroupSoftware st a) \<longleftrightarrow>
     (\<exists>r \<in> set (relationships st). sourceRef r = a \<and> relationshipType r = ''uses''
        \<and> map_get (softwareByStixId st) (targetRef r) = Some sw)"
  by (auto simp: getGroupSoftware_def set_map_filter split: option.splits)

lemma getSoftwareGroups_member:
  "g \<in> set (getSoftwareGroups st b) \<longleftrightarrow>
     (\<exists>r \<in> set (relationships st). targetRef r = b \<and> relationshipType r = ''uses''
        \<and> map_get (groupsByStixId st) (sourceRef r) = Some g)"
  by (auto simp: getSoftwareGroups_def set_map_filter split: option.splits)

lemma getGroupTechniques_member:
  "(t, d) \<in> set (getGroupTechniques st a) \<longleftrightarrow>
     (\<exists>r \<in> set (relationships st). sourceRef r = a \<and> relationshipType r = ''uses''
        \<and> map_get (techniquesByStixId st) (targetRef r) = Some t
        \<and> \<not> t_deprecated t \<and> \<not> t_revoked t \<and> r_description r = d)"
  by (auto simp: getGroupTechniques_def set_map_filter split: option.splits if_splits)

lemma getSoftwareTechniques_eq: "getSoftwareTechniques st a = getGroupTechniques st a"
  by (simp add: getSoftwareTechniques_def getGroupTechniques_def)

lemma getGroupSoftware_count:
  "count_list (getGroupSoftware st a) sw =
     length (filter (\<lambda>r. sourceRef r = a \<and> relationshipType r = ''uses''
               \<and> map_get (softwareByStixId st) (targetRef r) = Some sw) (relationships st))"
  unfolding getGroupSoftware_def count_map_filter filter_filter
  by (rule arg_cong [where f = length], rule filter_cong) (auto split: option.splits)

lemma getSoftwareGroups_count:
  "count_list (getSoftwareGroups st b) g =
     length (filter (\<lambda>r. targetRef r = b \<and> relationshipType r = ''uses''
               \<and> map_get (groupsByStixId st) (sourceRef r) = Some g) (relationships st))"
  unfolding getSoftwareGroups_def count_map_filter filter_filter
  by (rule arg_cong [where f = length], rule filter_cong) (auto split: option.splits)

lemma getGroupTechniques_count:
  "\<not> t_deprecated t \<Longrightarrow> \<not> t_revoked t \<Longrightarrow>
   count_list (getGroupTechniques st a) (t, d) =
     length (filter (\<lambda>r. sourceRef r = a \<and> relationshipType r = ''uses''
               \<and> map_get (techniquesByStixId st) (targetRef r) = Some t
               \<and> r_description r = d) (relationships st))"
  unfolding getGroupTechniques_def count_map_filter filter_filter
  by (rule arg_cong [where f = length], rule filter_cong) (auto split: option.splits)

text \<open>
  Claim C6. In every store, for a \<^verbatim>\<open>uses\<close> edge \<open>r\<close> of the relationship list whose
  source resolves to a group and whose target resolves to a software entity, neither of
  them deprecated or revoked: the software is in the group's used-software result and
  the group is in the software's using-groups result, and either result holds the
  entity once for each such edge between the two. For a \<^verbatim>\<open>uses\<close> edge \<open>r'\<close> whose
  target resolves to a technique that is neither deprecated nor revoked: the technique,
  paired with the edge's description, is in the used-techniques result of the edge's
  source (group or software), once for each such edge with that description.
\<close>

theorem uses_edge_symmetry:
  "(r \<in> set (relationships st) \<and> relationshipType r = ''uses''
      \<and> map_get (groupsByStixId st) (sourceRef r) = Some g
      \<and> \<not> g_deprecated g \<and> \<not> g_revoked g
      \<and> map_get (softwareByStixId st) (targetRef r) = Some sw
      \<and> \<not> s_deprecated sw \<and> \<not> s_revoked sw
    \<longrightarrow> sw \<in> set (getGroupSoftware st (sourceRef r))
        \<and> g \<in> set (getSoftwareGroups st (targetRef r))
        \<and> count_list (getGroupSoftware st (sourceRef r)) sw =
            length (filter (\<lambda>e. sourceRef e = sourceRef r \<and> relationshipType e = ''uses''
                      \<and> map_get (softwareByStixId st) (targetRef e) = Some sw) (relationships st))
        \<and> count_list (getSoftwareGroups st (targetRef r)) g =
            length (filter (\<lambda>e. targetRef e = targetRef r \<and> relationshipType e = ''uses''
                      \<and> map_get (groupsByStixId st) (sourceRef e) = Some g) (relationships st)))
   \<and> (r' \<in> set (relationships st) \<and> relationshipType r' = ''uses''
      \<and> map_get (techniquesByStixId st) (targetRef r') = Some t
      \<and> \<not> t_deprecated t \<and> \<not> t_revoked t
    \<longrightarrow> (t, r_description r') \<in> set (getGroupTechniques st (sourceRef r'))
        \<and> (t, r_description r') \<in> set (getSoftwareTechniques st (sourceRef r'))
        \<and> count_list (getGroupTechniques st (sourceRef r')) (t, r_description r') =
            length (filter (\<lambda>e. sourceRef e = sourceRef r' \<and> relationshipType e = ''uses''
                      \<and> map_get (techniquesByStixId st) (targetRef e) = Some t
                      \<and> r_description e = r_description r') (relationships st))
        \<and> count_list (getSoftwareTechniques st (sourceRef r')) (t, r_description r') =
            length (filter (\<lambda>e. sourceRef e = sourceRef r' \<and> relationshipType e = ''uses''
                      \<and> map_get (techniquesByStixId st) (targetRef e) = Some t
                      \<and> r_description e = r_description r') (relationships st)))"
proof (intro conjI impI)
  assume a: "r \<in> set (relationships st) \<and> relationshipType r = ''uses''
      \<and> map_get (groupsByStixId st) (sourceRef r) = Some g
      \<and> \<not> g_deprecated g \<and> \<not> g_revoked g
      \<and> map_get (softwareByStixId st) (targetRef r) = Some sw
      \<and> \<not> s_deprecated sw \<and> \<not> s_revoked sw"
  then show "sw \<in> set (getGroupSoftware st (sourceRef r))"
    unfolding getGroupSoftware_member by blast
  from a show "g \<in> set (getSoftwareGroups st (targetRef r))"
    unfolding getSoftwareGroups_member by blast
  show "count_list (getGroupSoftware st (sourceRef r)) sw =
            length (filter (\<lambda>e. sourceRef e = sourceRef r \<and> relationshipType e = ''uses''
                      \<and> map_get (softwareByStixId st) (targetRef e) = Some sw) (relationships st))"
    by (rule getGroupSoftware_count)
  show "count_list (getSoftwareGroups st (targetRef r)) g =
            length (filter (\<lambda>e. targetRef e = targetRef r \<and> relationshipType e = ''uses''
                      \<and> map_get (groupsByStixId st) (sourceRef e) = Some g) (relationships st))"
    by (rule getSoftwareGroups_count)
next
  assume b: "r' \<in> set (relationships st) \<and> relationshipType r' = ''uses''
      \<and> map_get (techniquesByStixId st) (targetRef r') = Some t
      \<and> \<not> t_deprecated t \<and> \<not> t_revoked t"
  then show m: "(t, r_description r') \<in> set (getGroupTechniques st (sourceRef r'))"
    unfolding getGroupTechniques_member by blast
  then show "(t, r_description r') \<in> set (getSoftwareTechniques st (sourceRef r'))"
    by (simp add: getSoftwareTechniques_eq)
  from b show c: "count_list (getGroupTechniques st (sourceRef r')) (t, r_description r') =
            length (filter (\<lambda>e. sourceRef e = sourceRef r' \<and> relationshipType e = ''uses''
                      \<and> map_get (techniquesByStixId st) (targetRef e) = Some t
                      \<and> r_description e = r_description r') (relationships st))"
    by (intro getGroupTechniques_count) simp_all
  then show "count_list (getSoftwareTechniques st (sourceRef r')) (t, r_description r') =
            length (filter (\<lambda>e. sourceRef e = sourceRef r' \<and> relationshipType e = ''uses''
                      \<and> map_get (techniquesByStixId st) (targetRef e) = Some t
                      \<and> r_description e = r_description r') (relationships st))"
    by (simp add: getSoftwareTechniques_eq)
qed


text \<open>The edges from APT28 to Mimikatz and to T1059 in the example store.\<close>

theorem uses_edge_symmetry_witness:
  "ex_edge ''intrusion-set--apt28'' ''malware--mimikatz'' \<in> set (relationships ex_store)
   \<and> ex_edge ''intrusion-set--apt28'' ''attack-pattern--t1059'' \<in> set (relationships ex_store)
   \<and> software_of Malware ex_mimikatz \<in> set (getGroupSoftware ex_store ''intrusion-set--apt28'')
   \<and> group_of ex_apt28 \<in> set (getSoftwareGroups ex_store ''malware--mimikatz'')
   \<and> (technique_of ex_t1059, []) \<in> set (getGroupTechniques ex_store ''intrusion-set--apt28'')"
proof -
  let ?r = "ex_edge ''intrusion-set--apt28'' ''malware--mimikatz''"
  let ?r' = "ex_edge ''intrusion-set--apt28'' ''attack-pattern--t1059''"
  have h: "?r \<in> set (relationships ex_store) \<and> relationshipType ?r = ''uses''
      \<and> map_get (groupsByStixId ex_store) (sourceRef ?r) = Some (group_of ex_apt28)
      \<and> \<not> g_deprecated (group_of ex_apt28) \<and> \<not> g_revoked (group_of ex_apt28)
      \<and> map_get (softwareByStixId ex_store) (targetRef ?r) = Some (software_of Malware ex_mimikatz)
      \<and> \<not> s_deprecated (software_of Malware ex_mimikatz)
      \<and> \<not> s_revoked (software_of Malware ex_mimikatz)"
    by code_simp
  have h': "?r' \<in> set (relationships ex_store) \<and> relationshipType ?r' = ''uses''
      \<and> map_get (techniquesByStixId ex_store) (targetRef ?r') = Some (technique_of ex_t1059)
      \<and> \<not> t_deprecated (technique_of ex_t1059) \<and> \<not> t_revoked (technique_of ex_t1059)"
    by code_simp
  note inst = uses_edge_symmetry
    [of ?r ex_store "group_of ex_apt28" "software_of Malware ex_mimikatz"
        ?r' "technique_of ex_t1059"]
  from inst [THEN conjunct1, THEN mp, OF h] inst [THEN conjunct2, THEN mp, OF h'] h h'
  show ?thesis
    by (simp add: ex_edge_def)
qed

text \<open>
  The software and group composite queries do not drop retired entities. In the example
  store APT28 has a \<^verbatim>\<open>uses\<close> edge to the deprecated OldRat, and OldRat is in the
  used-software result of APT28; the revoked Old Group has a \<^verbatim>\<open>uses\<close> edge to
  Mimikatz, and Old Group is in the using-groups result of Mimikatz. (Claim C1 says that
  both are dropped.)
\<close>

theorem composite_software_group_queries_keep_retired:
  "getGroup ex_store ''G0007'' = Some (group_of ex_apt28)
   \<and> g_stixId (group_of ex_apt28) = ''intrusion-set--apt28''
   \<and> ex_edge ''intrusion-set--apt28'' ''malware--oldrat'' \<in> set (relationships ex_store)
   \<and> map_get (softwareByStixId ex_store) ''malware--oldrat'' = Some (software_of Malware ex_old_rat)
   \<and> s_deprecated (software_of Malware ex_old_rat)
   \<and> getGroupSoftware ex_store ''intrusion-set--apt28''
       = [software_of Malware ex_mimikatz, software_of Malware ex_old_rat]
   \<and> ex_edge ''intrusion-set--old'' ''malware--mimikatz'' \<in> set (relationships ex_store)
   \<and> map_get (groupsByStixId ex_store) ''intrusion-set--old'' = Some (group_of ex_old_group)
   \<and> g_revoked (group_of ex_old_group)
   \<and> getSoftwareGroups ex_store ''malware--mimikatz''
       = [group_of ex_apt28, group_of ex_old_group]"
  by code_simp


text \<open>The sibling queries, which resolve techniques and mitigations, do drop them.\<close>

lemma technique_composite_queries_drop_retired:
  "(t, d) \<in> set (getGroupTechniques st a) \<Longrightarrow> \<not> t_deprecated t \<and> \<not> t_revoked t"
  "(t, d) \<in> set (getSoftwareTechniques st a) \<Longrightarrow> \<not> t_deprecated t \<and> \<not> t_revoked t"
  "(t, d) \<in> set (getTechniquesForMitigation st mid) \<Longrightarrow> \<not> t_deprecated t \<and> \<not> t_revoked t"
  "(m, d) \<in> set (getMitigationsForTechnique st tid) \<Longrightarrow> \<not> m_deprecated m \<and> \<not> m_revoked m"
  "t \<in> set (getTechniquesDetectedByComponent st c) \<Longrightarrow> \<not> t_deprecated t \<and> \<not> t_revoked t"
  by (auto simp: getGroupTechniques_def getSoftwareTechniques_def getTechniquesForMitigation_def
        getMitigationsForTechnique_def getTechniquesDetectedByComponent_def Let_def
        set_map_filter split: option.splits if_splits)

subsection \<open>Kill-chain order of tactics\<close>

text \<open>The sort returns the elements it was given.\<close>

lemma set_take_drop_union: "set (take n xs) \<union> set (drop n xs) = set xs"
  by (metis append_take_drop_id set_append)

lemma set_insert_pivot: "set (insert_pivot cmp run pivot) = insert pivot (set run)"
proof -
  have "set (take l run @ pivot # drop l run) = insert pivot (set (take l run) \<union> set (drop l run))"
    for l by simp
  then show ?thesis
    by (simp only: insert_pivot_def Let_def set_take_drop_union)
qed

lemma length_insert_pivot: "length (insert_pivot cmp run pivot) = Suc (length run)"
proof -
  have "length (take l run @ pivot # drop l run) = Suc (length (take l run @ drop l run))"
    for l by simp
  then show ?thesis
    by (simp only: insert_pivot_def Let_def append_take_drop_id)
qed

lemma set_binary_insertion_sort:
  "set (binary_insertion_sort cmp run rest) = set run \<union> set rest"
  by (induction rest arbitrary: run) (simp_all add: set_insert_pivot)

lemma length_binary_insertion_sort:
  "length (binary_insertion_sort cmp run rest) = length run + length rest"
  by (induction rest arbitrary: run) (simp_all add: length_insert_pivot)

lemma count_and_make_run_perm:
  "set (snd (count_and_make_run cmp xs)) = set xs \<and> length (snd (count_and_make_run cmp xs)) = length xs"
proof (cases xs)
  case Nil
  then show ?thesis by (simp add: count_and_make_run_def)
next
  case (Cons x ys)
  note xs = Cons
  show ?thesis
  proof (cases ys)
    case Nil
    with xs show ?thesis by (simp add: count_and_make_run_def)
  next
    case (Cons y rest)
    define n where "n = 2 + run_extend cmp (cmp y x < 0) y rest"
    have r: "snd (count_and_make_run cmp xs) =
             (if cmp y x < 0 then rev (take n xs) @ drop n xs else xs)"
      unfolding xs Cons n_def
      by (simp only: count_and_make_run_def list.case Let_def snd_conv)
    have "set (rev (take n xs) @ drop n xs) = set xs"
      by (simp only: set_append set_rev set_take_drop_union)
    moreover have "length (rev (take n xs) @ drop n xs) = length (take n xs @ drop n xs)"
      by simp
    ultimately show ?thesis
      by (simp only: r append_take_drop_id split: if_split) simp
  qed
qed

lemma set_js_sort: "set (js_sort comparefn xs) = set xs"
proof (cases "length xs < 2")
  case True
  then show ?thesis by (simp add: js_sort_def)
next
  case False
  define run where "run = count_and_make_run (sort_compare comparefn) xs"
  have "js_sort comparefn xs =
        binary_insertion_sort (sort_compare comparefn) (take (fst run) (snd run))
          (drop (fst run) (snd run))"
    using False by (simp only: js_sort_def Let_def run_def if_False)
  then show ?thesis
    using count_and_make_run_perm [of "sort_compare comparefn" xs]
    by (simp only: set_binary_insertion_sort set_take_drop_union run_def)
qed

lemma length_js_sort: "length (js_sort comparefn xs) = length xs"
proof (cases "length xs < 2")
  case True
  then show ?thesis by (simp add: js_sort_def)
next
  case False
  define run where "run = count_and_make_run (sort_compare comparefn) xs"
  have "js_sort comparefn xs =
        binary_insertion_sort (sort_compare comparefn) (take (fst run) (snd run))
          (drop (fst run) (snd run))"
    using False by (simp only: js_sort_def Let_def run_def if_False)
  moreover have "length (take (fst run) (snd run)) + length (drop (fst run) (snd run))
                 = length (snd run)"
    by (metis append_take_drop_id length_append)
  ultimately show ?thesis
    using count_and_make_run_perm [of "sort_compare comparefn" xs]
    by (simp only: length_binary_insertion_sort run_def)
qed

text \<open>
  The order that the parser gives: the table's number for a key of the table, the
  inherited value for a property name that every object inherits, and 99 otherwise.
\<close>

lemma tactic_of_order:
  "ta_order (tactic_of tab obj) =
     (case map_of tab (ta_shortName (tactic_of tab obj)) of
        Some n \<Rightarrow> Num n
      | None \<Rightarrow>
          if ta_shortName (tactic_of tab obj) \<in> set object_prototype_names
          then Inherited (ta_shortName (tactic_of tab obj)) else Num 99)"
  by (simp add: tactic_of_def Let_def record_lookup_def split: option.splits)

text \<open>
  In the example store, whose short names are keys of the table or unknown words, the
  listing is in kill-chain order with the unknown tactic last.
\<close>

lemma ex_store_tactics:
  "map ta_shortName (getAllTactics ex_store) = [''initial-access'', ''execution'', ''custom-phase'']"
  "map ta_order (getAllTactics ex_store) = [Num 2, Num 3, Num 99]"
  by code_simp+

text \<open>
  Claim C9 does not hold of the code. The short name \<^verbatim>\<open>constructor\<close> is not a key of the
  kill-chain table, yet \<^verbatim>\<open>tacticOrder[shortName] ?? 99\<close> finds the inherited property
  of that name, so the tactic's order is that function and not 99. Every difference
  with it is \<^verbatim>\<open>NaN\<close>, and both sorts, the parser's and the store's, leave the tactics
  of the example bundle as they stand: \<^verbatim>\<open>execution\<close> before \<^verbatim>\<open>initial-access\<close>.
\<close>

theorem inherited_short_name_breaks_kill_chain_order:
  "map_of ENTERPRISE_TACTIC_ORDER ''constructor'' = None
   \<and> ta_shortName (tactic_of ENTERPRISE_TACTIC_ORDER ex_ta_constructor) = ''constructor''
   \<and> ta_order (tactic_of ENTERPRISE_TACTIC_ORDER ex_ta_constructor) = Inherited ''constructor''
   \<and> map ta_shortName (parseTactics ex_tactic_bundle ENTERPRISE_TACTIC_ORDER)
       = [''execution'', ''constructor'', ''initial-access'']
   \<and> map ta_order (getAllTactics (loads [[(Enterprise, ex_tactic_bundle)]]))
       = [Num 3, Inherited ''constructor'', Num 2]
   \<and> map ta_shortName (getAllTactics (loads [[(Enterprise, ex_tactic_bundle)]]))
       = [''execution'', ''constructor'', ''initial-access'']"
  by code_simp

subsection \<open>Loading a bundle twice\<close>

lemma apply_sets_simps:
  "apply_sets [] m = m"
  "apply_sets (u # us) m = apply_sets us (map_set (fst u) (snd u) m)"
  "apply_sets (us @ vs) m = apply_sets vs (apply_sets us m)"
  by (simp_all add: apply_sets_def)

lemma keys_apply_sets: "fst ` set (apply_sets us m) = fst ` set m \<union> fst ` set us"
proof (induction us arbitrary: m)
  case Nil
  show ?case by (simp add: apply_sets_simps)
next
  case (Cons u us)
  have "set (map fst (map_set (fst u) (snd u) m)) = insert (fst u) (fst ` set m)"
    by (auto simp: keys_map_set)
  then have "fst ` set (map_set (fst u) (snd u) m) = insert (fst u) (fst ` set m)"
    by simp
  with Cons [of "map_set (fst u) (snd u) m"] show ?case
    by (auto simp: apply_sets_simps)
qed

lemma apply_sets_overwritten:
  "fst ` set ws \<subseteq> fst ` set m \<Longrightarrow>
     map_set k v (apply_sets ws (map_set k v' m)) = map_set k v (apply_sets ws m)"
proof (induction ws arbitrary: m v')
  case Nil
  show ?case by (simp add: apply_sets_simps map_set_absorb)
next
  case (Cons w ws)
  then have in_m: "fst w \<in> fst ` set m" and rest: "fst ` set ws \<subseteq> fst ` set m"
    by auto
  have keys: "fst ` set ws \<subseteq> fst ` set (map_set (fst w) (snd w) m)"
    using rest keys_apply_sets [of "[w]" m] by (auto simp: apply_sets_simps)
  show ?case
  proof (cases "fst w = k")
    case True
    then show ?thesis
      by (simp add: apply_sets_simps map_set_absorb)
  next
    case False
    then have "map_set (fst w) (snd w) (map_set k v' m) = map_set k v' (map_set (fst w) (snd w) m)"
      using map_set_commute [of "fst w" k m "snd w" v'] in_m by simp
    then show ?thesis
      using Cons.IH [OF keys] by (simp add: apply_sets_simps)
  qed
qed

lemma apply_sets_idem: "apply_sets us (apply_sets us m) = apply_sets us m"
proof (induction us rule: rev_induct)
  case Nil
  show ?case by (simp add: apply_sets_simps)
next
  case (snoc u us)
  have keys: "fst ` set us \<subseteq> fst ` set (apply_sets us m)"
    by (simp add: keys_apply_sets)
  have "apply_sets (us @ [u]) (apply_sets (us @ [u]) m)
        = map_set (fst u) (snd u) (apply_sets us (map_set (fst u) (snd u) (apply_sets us m)))"
    by (simp add: apply_sets_simps)
  also have "\<dots> = map_set (fst u) (snd u) (apply_sets us (apply_sets us m))"
    by (rule apply_sets_overwritten [OF keys])
  also have "\<dots> = apply_sets (us @ [u]) m"
    by (simp add: snoc.IH apply_sets_simps)
  finally show ?case .
qed

lemma index_by_apply_sets: "index_by key xs m = apply_sets (map (\<lambda>x. (key x, x)) xs) m"
  unfolding index_by_def apply_sets_def by (induction xs arbitrary: m) simp_all

lemma alias_loop_apply_sets:
  "foldl (\<lambda>m alias. map_set (toLowerCase alias) x m) m as
   = apply_sets (map (\<lambda>alias. (toLowerCase alias, x)) as) m"
  unfolding apply_sets_def by (induction as arbitrary: m) simp_all

lemma index_by_names_apply_sets:
  "index_by_names nm als xs m = apply_sets (concat (map (name_sets nm als) xs)) m"
proof (induction xs arbitrary: m)
  case Nil
  show ?case by (simp add: index_by_names_def apply_sets_simps)
next
  case (Cons x xs)
  have "index_by_names nm als (x # xs) m
        = index_by_names nm als xs (apply_sets (name_sets nm als x) m)"
    by (simp add: index_by_names_def alias_loop_apply_sets name_sets_def apply_sets_simps)
  then show ?case
    by (simp add: Cons apply_sets_simps)
qed

lemma index_by_idem: "index_by key xs (index_by key xs m) = index_by key xs m"
  by (simp add: index_by_apply_sets apply_sets_idem)

lemma index_by_names_idem:
  "index_by_names nm als xs (index_by_names nm als xs m) = index_by_names nm als xs m"
  by (simp add: index_by_names_apply_sets apply_sets_idem)

lemma indexBundle_twice:
  "indexBundle b (indexBundle b st) =
     (indexBundle b st)\<lparr>
        dataComponents := dataComponents (indexBundle b st) @ parseDataComponents b,
        relationships := relationships (indexBundle b st) @ parseRelationships b\<rparr>"
  by (simp add: indexBundle_def Let_def index_by_idem index_by_names_idem)


lemma indexBundle_loaded:
  "indexBundle b (st\<lparr>loaded := True\<rparr>) = (indexBundle b st)\<lparr>loaded := True\<rparr>"
  by (simp add: indexBundle_def Let_def)

lemma load_once_eq: "load_once st mx b = (indexBundle b st)\<lparr>loaded := True\<rparr>"
  by (simp add: load_once_def loadFromBundles_def map_values_def)

lemma load_twice_eq:
  "load_twice st mx b =
     (load_once st mx b)\<lparr>
        dataComponents := dataComponents (load_once st mx b) @ parseDataComponents b,
        relationships := relationships (load_once st mx b) @ parseRelationships b\<rparr>"
  by (simp add: load_twice_def load_once_def loadFromBundles_def map_values_def
        indexBundle_loaded indexBundle_twice)

lemma load_once_lists:
  "set (parseRelationships b) \<subseteq> set (relationships (load_once st mx b))"
  "set (parseDataComponents b) \<subseteq> set (dataComponents (load_once st mx b))"
  by (simp_all add: load_once_eq indexBundle_def Let_def)

text \<open>
  Appending edges and components that the store already has changes no composite
  result, as a set.
\<close>

lemma composite_sets_extend:
  assumes q: "set q \<subseteq> set (relationships s)" and p: "set p \<subseteq> set (dataComponents s)"
  defines "s' \<equiv> s\<lparr>dataComponents := dataComponents s @ p, relationships := relationships s @ q\<rparr>"
  shows "set (getGroupTechniques s' a) = set (getGroupTechniques s a)"
    and "set (getGroupSoftware s' a) = set (getGroupSoftware s a)"
    and "set (getSoftwareTechniques s' a) = set (getSoftwareTechniques s a)"
    and "set (getSoftwareGroups s' a) = set (getSoftwareGroups s a)"
    and "set (getMitigationsForTechnique s' a) = set (getMitigationsForTechnique s a)"
    and "set (getTechniquesForMitigation s' a) = set (getTechniquesForMitigation s a)"
    and "set (getTechniquesDetectedByComponent s' a) = set (getTechniquesDetectedByComponent s a)"
    and "set (getComponentsForDataSource s' a) = set (getComponentsForDataSource s a)"
proof -
  have r: "set (relationships s') = set (relationships s)"
    and c: "set (dataComponents s') = set (dataComponents s)"
    and m: "techniques s' = techniques s" "techniquesByStixId s' = techniquesByStixId s"
      "softwareByStixId s' = softwareByStixId s" "groupsByStixId s' = groupsByStixId s"
      "mitigations s' = mitigations s" "mitigationsByStixId s' = mitigationsByStixId s"
    using q p by (auto simp: s'_def)
  show "set (getGroupTechniques s' a) = set (getGroupTechniques s a)"
    by (simp add: getGroupTechniques_def set_map_filter r m)
  show "set (getGroupSoftware s' a) = set (getGroupSoftware s a)"
    by (simp add: getGroupSoftware_def set_map_filter r m)
  show "set (getSoftwareTechniques s' a) = set (getSoftwareTechniques s a)"
    by (simp add: getSoftwareTechniques_def set_map_filter r m)
  show "set (getSoftwareGroups s' a) = set (getSoftwareGroups s a)"
    by (simp add: getSoftwareGroups_def set_map_filter r m)
  show "set (getMitigationsForTechnique s' a) = set (getMitigationsForTechnique s a)"
    by (simp add: getMitigationsForTechnique_def set_map_filter r m split: option.splits)
  show "set (getTechniquesForMitigation s' a) = set (getTechniquesForMitigation s a)"
    by (simp add: getTechniquesForMitigation_def set_map_filter r m split: option.splits)
  show "set (getTechniquesDetectedByComponent s' a) = set (getTechniquesDetectedByComponent s a)"
    by (simp add: getTechniquesDetectedByComponent_def Let_def set_map_filter r m)
  show "set (getComponentsForDataSource s' a) = set (getComponentsForDataSource s a)"
    by (simp add: getComponentsForDataSource_def c)
qed

lemma reload_lookups:
  "getTechnique (load_twice st mx b) x = getTechnique (load_once st mx b) x"
  "getTechniqueByStixId (load_twice st mx b) x = getTechniqueByStixId (load_once st mx b) x"
  "getTactic (load_twice st mx b) x = getTactic (load_once st mx b) x"
  "getGroup (load_twice st mx b) x = getGroup (load_once st mx b) x"
  "getSoftware (load_twice st mx b) x = getSoftware (load_once st mx b) x"
  "getMitigation (load_twice st mx b) x = getMitigation (load_once st mx b) x"
  "getDataSource (load_twice st mx b) x = getDataSource (load_once st mx b) x"
  by (simp_all add: load_twice_eq getTechnique_def getTechniqueByStixId_def getTactic_def
        getGroup_def getSoftware_def getMitigation_def getDataSource_def)

lemma reload_internal_lookups:
  "map_get (groupsByStixId (load_twice st mx b)) x = map_get (groupsByStixId (load_once st mx b)) x"
  "map_get (softwareByStixId (load_twice st mx b)) x = map_get (softwareByStixId (load_once st mx b)) x"
  "map_get (mitigationsByStixId (load_twice st mx b)) x = map_get (mitigationsByStixId (load_once st mx b)) x"
  "map_get (dataSourcesByStixId (load_twice st mx b)) x = map_get (dataSourcesByStixId (load_once st mx b)) x"
  by (simp_all add: load_twice_eq)

lemma reload_relationships:
  "relationships (load_twice st mx b) = relationships (load_once st mx b) @ parseRelationships b"
  by (simp add: load_twice_eq)

lemmas reload_composites =
  composite_sets_extend [OF load_once_lists, folded load_twice_eq]

text \<open>
  Claim C8. For every store, matrix key and bundle: after a second load of the bundle
  every point lookup (by public ID, by internal ID, by name or alias) returns what it
  returned after the first load; the relationship list is the list after the first load
  with the bundle's relationships appended once more; and every composite query,
  the owned-components query included, has the same result set.
\<close>

theorem reload_idempotent:
  "getTechnique (load_twice st mx b) x = getTechnique (load_once st mx b) x
   \<and> getTechniqueByStixId (load_twice st mx b) x = getTechniqueByStixId (load_once st mx b) x
   \<and> getTactic (load_twice st mx b) x = getTactic (load_once st mx b) x
   \<and> getGroup (load_twice st mx b) x = getGroup (load_once st mx b) x
   \<and> getSoftware (load_twice st mx b) x = getSoftware (load_once st mx b) x
   \<and> getMitigation (load_twice st mx b) x = getMitigation (load_once st mx b) x
   \<and> getDataSource (load_twice st mx b) x = getDataSource (load_once st mx b) x
   \<and> map_get (groupsByStixId (load_twice st mx b)) x = map_get (groupsByStixId (load_once st mx b)) x
   \<and> map_get (softwareByStixId (load_twice st mx b)) x = map_get (softwareByStixId (load_once st mx b)) x
   \<and> map_get (mitigationsByStixId (load_twice st mx b)) x = map_get (mitigationsByStixId (load_once st mx b)) x
   \<and> map_get (dataSourcesByStixId (load_twice st mx b)) x = map_get (dataSourcesByStixId (load_once st mx b)) x
   \<and> relationships (load_twice st mx b) = relationships (load_once st mx b) @ parseRelationships b
   \<and> set (getGroupTechniques (load_twice st mx b) a) = set (getGroupTechniques (load_once st mx b) a)
   \<and> set (getGroupSoftware (load_twice st mx b) a) = set (getGroupSoftware (load_once st mx b) a)
   \<and> set (getSoftwareTechniques (load_twice st mx b) a) = set (getSoftwareTechniques (load_once st mx b) a)
   \<and> set (getSoftwareGroups (load_twice st mx b) a) = set (getSoftwareGroups (load_once st mx b) a)
   \<and> set (getMitigationsForTechnique (load_twice st mx b) a)
       = set (getMitigationsForTechnique (load_once st mx b) a)
   \<and> set (getTechniquesForMitigation (load_twice st mx b) a)
       = set (getTechniquesForMitigation (load_once st mx b) a)
   \<and> set (getTechniquesDetectedByComponent (load_twice st mx b) a)
       = set (getTechniquesDetectedByComponent (load_once st mx b) a)
   \<and> set (getComponentsForDataSource (load_twice st mx b) a)
       = set (getComponentsForDataSource (load_once st mx b) a)"
  by (intro conjI reload_lookups reload_internal_lookups reload_relationships reload_composites)

subsection \<open>The freshness policy of initialize\<close>

lemma loaded_indexBundle: "loaded (indexBundle b st) = loaded st"
  by (simp add: indexBundle_def Let_def)

lemma loaded_fold_indexBundle:
  "loaded (foldl (\<lambda>s b. indexBundle b s) st bs) = loaded st"
  by (induction bs arbitrary: st) (simp_all add: loaded_indexBundle)

lemma index_loop_bundles:
  "index_loop (map JBundle bs) st = (foldl (\<lambda>s b. indexBundle b s) st bs, None)"
  by (induction bs arbitrary: st) simp_all

lemma index_all_as_docs: "index_all (as_docs bs) st = (loadFromBundles bs st, None)"
proof -
  have "map_values (as_docs bs) = map JBundle (map_values bs)"
    by (induction bs) (auto simp: as_docs_def map_values_def)
  then show ?thesis
    by (simp add: index_all_def index_loop_bundles loadFromBundles_def)
qed

text \<open>
  An error of the indexing loop is the \<^verbatim>\<open>TypeError\<close> at the first document that is not a
  bundle; the bundles before it are indexed, and \<^verbatim>\<open>loaded\<close> is not set.
\<close>

lemma index_loop_error:
  "index_loop ds st = (st', Some err) \<Longrightarrow>
     err = TypeError
     \<and> (\<exists>pre d post. ds = map JBundle pre @ d # post \<and> \<not> is_bundle d
           \<and> st' = foldl (\<lambda>s b. indexBundle b s) st pre)"
proof (induction ds arbitrary: st)
  case Nil
  then show ?case by simp
next
  case (Cons d ds)
  show ?case
  proof (cases d)
    case (JBundle b)
    with Cons.prems have "index_loop ds (indexBundle b st) = (st', Some err)"
      by simp
    from Cons.IH [OF this] obtain pre x post where
      e: "err = TypeError" and ds: "ds = map JBundle pre @ x # post" and x: "\<not> is_bundle x"
      and st': "st' = foldl (\<lambda>s b. indexBundle b s) (indexBundle b st) pre"
      by blast
    have "d # ds = map JBundle (b # pre) @ x # post"
      by (simp add: ds JBundle)
    moreover have "st' = foldl (\<lambda>s b. indexBundle b s) st (b # pre)"
      by (simp add: st')
    ultimately show ?thesis
      using e x by blast
  next
    case JFalsy
    with Cons.prems have "err = TypeError" "st' = st" by simp_all
    moreover have "d # ds = map JBundle [] @ d # ds" "\<not> is_bundle d"
      by (simp_all add: JFalsy is_bundle_def)
    ultimately show ?thesis
      by (metis foldl_Nil)
  next
    case JOther
    with Cons.prems have "err = TypeError" "st' = st" by simp_all
    moreover have "d # ds = map JBundle [] @ d # ds" "\<not> is_bundle d"
      by (simp_all add: JOther is_bundle_def)
    ultimately show ?thesis
      by (metis foldl_Nil)
  qed
qed

lemma index_all_error:
  assumes "index_all docs st = (st', Some err)"
  shows "err = TypeError \<and> loaded st' = loaded st
     \<and> (\<exists>pre d post. map_values docs = map JBundle pre @ d # post \<and> \<not> is_bundle d
           \<and> st' = foldl (\<lambda>s b. indexBundle b s) st pre)"
proof -
  obtain s r where l: "index_loop (map_values docs) st = (s, r)"
    by (cases "index_loop (map_values docs) st")
  with assms have "r = Some err" "s = st'"
    by (auto simp: index_all_def split: option.splits)
  with l have "index_loop (map_values docs) st = (st', Some err)" by simp
  from index_loop_error [OF this] show ?thesis
    by (auto simp: loaded_fold_indexBundle)
qed

lemma index_loop_all_bundles: "list_all is_bundle ds \<Longrightarrow> snd (index_loop ds st) = None"
  by (induction ds arbitrary: st) (auto simp: is_bundle_def split: json_doc.splits)

lemma index_all_all_bundles:
  "list_all is_bundle (map_values docs) \<Longrightarrow> snd (index_all docs st) = None"
  using index_loop_all_bundles [of "map_values docs" st]
  by (cases "index_loop (map_values docs) st") (auto simp: index_all_def split: option.splits)

lemma cached_loop_Some:
  "(\<exists>bs. cached_loop ms e acc = Some bs)
   \<longleftrightarrow> (\<forall>m \<in> set ms. \<exists>d. cache e m = Parsed d \<and> d \<noteq> JFalsy)"
  by (induction ms arbitrary: acc)
     (auto simp: loadCachedBundle_def split: cache_file.splits)

lemma loadCachedBundles_complete:
  "(\<exists>bs. loadCachedBundles e ms = Some bs)
   \<longleftrightarrow> (\<forall>m \<in> set ms. \<exists>d. cache e m = Parsed d \<and> d \<noteq> JFalsy)"
  by (simp add: loadCachedBundles_def cached_loop_Some)

lemma complete_hasCachedData: "loadCachedBundles e ms = Some bs \<Longrightarrow> hasCachedData e ms"
  using loadCachedBundles_complete [of e ms] by (auto simp: hasCachedData_def list_all_iff)

lemma values_map_set: "set (map_values (map_set k v m)) \<subseteq> insert v (set (map_values m))"
  using set_map_set_subset [of k v m] by (auto simp: map_values_def)

lemma cached_loop_values:
  "cached_loop ms e acc = Some docs \<Longrightarrow>
     set (map_values docs) \<subseteq> set (map_values acc) \<union> {d. \<exists>m \<in> set ms. cache e m = Parsed d}"
proof (induction ms arbitrary: acc)
  case Nil
  then show ?case by simp
next
  case (Cons m ms)
  from Cons.prems obtain d where d: "cache e m = Parsed d"
    and rest: "cached_loop ms e (map_set m d acc) = Some docs"
    by (auto simp: loadCachedBundle_def split: cache_file.splits if_splits)
  from Cons.IH [OF rest] values_map_set [of m d acc] d show ?case
    by auto
qed

lemma downloadMatrix_remote: "downloadMatrix e m = (e', r) \<Longrightarrow> remote e' = remote e"
  by (auto simp: downloadMatrix_def split: option.splits)

lemma download_loop_effect:
  "download_loop ms e acc = (e', r) \<Longrightarrow>
     remote e' = remote e
     \<and> (\<forall>k. cache e' k = cache e k \<or> (\<exists>d. remote e k = Some d \<and> cache e' k = Parsed d))"
proof (induction ms arbitrary: e acc)
  case Nil
  then show ?case by simp
next
  case (Cons m ms)
  show ?case
  proof (cases "remote e m")
    case None
    with Cons.prems show ?thesis by (simp add: downloadMatrix_def)
  next
    case (Some d)
    let ?e1 = "e\<lparr>cache := (cache e)(m := Parsed d)\<rparr>"
    from Some Cons.prems have "download_loop ms ?e1 (map_set m d acc) = (e', r)"
      by (simp add: downloadMatrix_def)
    from Cons.IH [OF this] Some show ?thesis
      by (auto split: if_splits)
  qed
qed

lemma download_loop_values:
  "download_loop ms e acc = (e', Inr docs) \<Longrightarrow>
     set (map_values docs) \<subseteq> set (map_values acc) \<union> {d. \<exists>m \<in> set ms. remote e m = Some d}"
proof (induction ms arbitrary: e acc)
  case Nil
  then show ?case by simp
next
  case (Cons m ms)
  from Cons.prems obtain d where d: "remote e m = Some d"
    and rest: "download_loop ms (e\<lparr>cache := (cache e)(m := Parsed d)\<rparr>) (map_set m d acc)
               = (e', Inr docs)"
    by (auto simp: downloadMatrix_def split: option.splits)
  from Cons.IH [OF rest] values_map_set [of m d acc] d show ?case
    by auto
qed

lemma downloadAllMatrices_effect:
  assumes "downloadAllMatrices e ms = (e', r)"
  shows "remote e' = remote e
     \<and> (\<forall>k. cache e' k = cache e k \<or> (\<exists>d. remote e k = Some d \<and> cache e' k = Parsed d))"
proof -
  obtain e1 r1 where l: "download_loop ms e [] = (e1, r1)"
    by (cases "download_loop ms e []")
  with assms have "cache e' = cache e1" "remote e' = remote e1"
    by (auto simp: downloadAllMatrices_def split: sum.splits)
  with download_loop_effect [OF l] show ?thesis by simp
qed

lemma downloadAllMatrices_values:
  assumes "downloadAllMatrices e ms = (e', Inr docs)"
  shows "set (map_values docs) \<subseteq> {d. \<exists>m \<in> set ms. remote e m = Some d}"
proof -
  obtain e1 r1 where l: "download_loop ms e [] = (e1, r1)"
    by (cases "download_loop ms e []")
  with assms have "r1 = Inr docs"
    by (auto simp: downloadAllMatrices_def split: sum.splits)
  with l download_loop_values [of ms e "[]" e1 docs] show ?thesis
    by (simp add: map_values_def)
qed

lemma docs_are_bundles_iff:
  "docs_are_bundles e ms \<longleftrightarrow>
     (\<forall>m \<in> set ms. (\<forall>d. cache e m = Parsed d \<longrightarrow> is_bundle d)
                  \<and> (\<forall>d. remote e m = Some d \<longrightarrow> is_bundle d))"
proof -
  have "(case cache e m of Parsed d \<Rightarrow> is_bundle d | _ \<Rightarrow> True)
        \<and> (case remote e m of Some d \<Rightarrow> is_bundle d | None \<Rightarrow> True)
        \<longleftrightarrow> (\<forall>d. cache e m = Parsed d \<longrightarrow> is_bundle d)
            \<and> (\<forall>d. remote e m = Some d \<longrightarrow> is_bundle d)" for m
    by (cases "cache e m"; cases "remote e m"; simp)
  then show ?thesis
    by (simp add: docs_are_bundles_def list_all_iff)
qed

lemma docs_are_bundles_after_download:
  assumes "downloadAllMatrices e ms = (e', r)" and "docs_are_bundles e ms"
  shows "docs_are_bundles e' ms"
  using downloadAllMatrices_effect [OF assms(1)] assms(2)
  unfolding docs_are_bundles_iff by (metis cache_file.inject)

lemma complete_after_download:
  assumes "downloadAllMatrices e ms = (e', r)" and "docs_are_bundles e ms"
      and "loadCachedBundles e ms = Some docs"
  shows "\<exists>docs'. loadCachedBundles e' ms = Some docs'"
proof -
  have "\<forall>m \<in> set ms. \<exists>d. cache e' m = Parsed d \<and> d \<noteq> JFalsy"
  proof
    fix m assume m: "m \<in> set ms"
    from assms(3) m obtain d where d: "cache e m = Parsed d" "d \<noteq> JFalsy"
      using loadCachedBundles_complete [of e ms] by blast
    from downloadAllMatrices_effect [OF assms(1)]
    consider "cache e' m = cache e m" | d' where "remote e m = Some d'" "cache e' m = Parsed d'"
      by blast
    then show "\<exists>d. cache e' m = Parsed d \<and> d \<noteq> JFalsy"
    proof cases
      case 1
      with d show ?thesis by simp
    next
      case 2
      with assms(2) m have "is_bundle d'"
        unfolding docs_are_bundles_iff by blast
      with 2 show ?thesis by (auto simp: is_bundle_def)
    qed
  qed
  then show ?thesis
    using loadCachedBundles_complete [of e' ms] by blast
qed

lemma cached_docs_are_bundles:
  assumes "loadCachedBundles e ms = Some docs" and "docs_are_bundles e ms"
  shows "list_all is_bundle (map_values docs)"
  using cached_loop_values [of ms e "[]" docs] assms
  unfolding docs_are_bundles_iff list_all_iff loadCachedBundles_def
  by (auto simp: map_values_def)

lemma fetched_docs_are_bundles:
  assumes "downloadAllMatrices e ms = (e', Inr docs)" and "docs_are_bundles e ms"
  shows "list_all is_bundle (map_values docs)"
  using downloadAllMatrices_values [OF assms(1)] assms(2)
  unfolding docs_are_bundles_iff list_all_iff by auto

lemma initialize_cached:
  assumes "loadCachedBundles e (matrices cfg) = Some docs"
      and "\<not> isCacheStale e (updateInterval cfg)"
  shows "initialize cfg e st = (e, index_all docs st)"
  using assms complete_hasCachedData [OF assms(1)]
  by (simp add: initialize_def)

lemma initialize_fetch:
  assumes "loadCachedBundles e (matrices cfg) = None \<or> isCacheStale e (updateInterval cfg)"
  shows "initialize cfg e st =
     (case downloadAllMatrices e (matrices cfg) of
        (e', Inr bs) \<Rightarrow> (e', index_all bs st)
      | (e', Inl err) \<Rightarrow>
          (case loadCachedBundles e' (matrices cfg) of
             Some bs \<Rightarrow> (e', index_all bs st)
           | None \<Rightarrow> (e', st, Some (LoadFailed err))))"
proof -
  have "(if hasCachedData e (matrices cfg) \<and> \<not> isCacheStale e (updateInterval cfg)
         then loadCachedBundles e (matrices cfg) else None) = None"
    using assms by auto
  then show ?thesis
    unfolding initialize_def Let_def by simp
qed

text \<open>
  Whatever \<^verbatim>\<open>initialize\<close> does, it ends in the indexing loop on some documents, or in
  the load error after a failed download with no complete cache behind it.
\<close>

lemma initialize_outcome:
  "(\<exists>e' docs. initialize cfg e st = (e', index_all docs st)
       \<and> (loadCachedBundles e (matrices cfg) = Some docs \<and> e' = e
          \<or> downloadAllMatrices e (matrices cfg) = (e', Inr docs)
          \<or> (\<exists>x. downloadAllMatrices e (matrices cfg) = (e', Inl x))
             \<and> loadCachedBundles e' (matrices cfg) = Some docs))
   \<or> (\<exists>e' x. initialize cfg e st = (e', st, Some (LoadFailed x))
       \<and> downloadAllMatrices e (matrices cfg) = (e', Inl x)
       \<and> loadCachedBundles e' (matrices cfg) = None)"
proof (cases "loadCachedBundles e (matrices cfg) = None \<or> isCacheStale e (updateInterval cfg)")
  case False
  then obtain docs where "loadCachedBundles e (matrices cfg) = Some docs"
    and "\<not> isCacheStale e (updateInterval cfg)" by auto
  with initialize_cached [of e cfg docs st] show ?thesis by blast
next
  case True
  note f = initialize_fetch [OF True, of st]
  obtain e' r where d: "downloadAllMatrices e (matrices cfg) = (e', r)"
    by (cases "downloadAllMatrices e (matrices cfg)")
  show ?thesis
  proof (cases r)
    case (Inr docs)
    with f d have "initialize cfg e st = (e', index_all docs st)" by simp
    with d Inr show ?thesis by blast
  next
    case (Inl x)
    show ?thesis
    proof (cases "loadCachedBundles e' (matrices cfg)")
      case None
      with f d Inl have "initialize cfg e st = (e', st, Some (LoadFailed x))" by simp
      with d Inl None show ?thesis by blast
    next
      case (Some docs)
      with f d Inl have "initialize cfg e st = (e', index_all docs st)" by simp
      with d Inl Some show ?thesis by blast
    qed
  qed
qed

lemma initialize_load_failed:
  assumes "initialize cfg e st = (e', st', Some (LoadFailed x))"
  shows "st' = st \<and> downloadAllMatrices e (matrices cfg) = (e', Inl x)
         \<and> loadCachedBundles e' (matrices cfg) = None"
  using initialize_outcome [of cfg e st] assms index_all_error
  by (metis Pair_inject error.distinct(5) error.inject(2) option.inject)

lemma initialize_bundles_only:
  assumes b: "docs_are_bundles e (matrices cfg)"
      and i: "initialize cfg e st = (e', st', Some err)"
  shows "st' = st \<and> (\<exists>x. err = LoadFailed x \<and> downloadAllMatrices e (matrices cfg) = (e', Inl x))
         \<and> loadCachedBundles e' (matrices cfg) = None
         \<and> loadCachedBundles e (matrices cfg) = None"
proof -
  from initialize_outcome [of cfg e st]
  consider (index) e1 docs where "initialize cfg e st = (e1, index_all docs st)"
      "loadCachedBundles e (matrices cfg) = Some docs \<and> e1 = e
       \<or> downloadAllMatrices e (matrices cfg) = (e1, Inr docs)
       \<or> (\<exists>x. downloadAllMatrices e (matrices cfg) = (e1, Inl x))
          \<and> loadCachedBundles e1 (matrices cfg) = Some docs"
    | (failed) e1 x where "initialize cfg e st = (e1, st, Some (LoadFailed x))"
      "downloadAllMatrices e (matrices cfg) = (e1, Inl x)"
      "loadCachedBundles e1 (matrices cfg) = None"
    by blast
  then show ?thesis
  proof cases
    case index
    have "list_all is_bundle (map_values docs)"
      using index(2) b cached_docs_are_bundles fetched_docs_are_bundles
        docs_are_bundles_after_download by blast
    then have "snd (index_all docs st) = None"
      by (rule index_all_all_bundles)
    with index(1) i show ?thesis
      by (cases "index_all docs st") simp
  next
    case failed
    with i have eq: "e1 = e'" "st' = st" "err = LoadFailed x" by simp_all
    have "loadCachedBundles e (matrices cfg) = None"
    proof (cases "loadCachedBundles e (matrices cfg)")
      case None
      then show ?thesis .
    next
      case (Some docs)
      from complete_after_download [OF failed(2) b Some] failed(3) show ?thesis by simp
    qed
    with failed eq show ?thesis by simp
  qed
qed

lemma initialize_complete_cache_succeeds:
  assumes "docs_are_bundles e (matrices cfg)" and "loadCachedBundles e (matrices cfg) = Some docs"
  shows "snd (snd (initialize cfg e st)) = None"
proof (cases "initialize cfg e st")
  case (fields e' st' r)
  show ?thesis
  proof (cases r)
    case None
    with fields show ?thesis by simp
  next
    case (Some err)
    with fields initialize_bundles_only [OF assms(1), of st e' st' err] assms(2)
    show ?thesis by simp
  qed
qed

lemma download_loop_fails:
  "(\<exists>x. snd (download_loop ms e acc) = Inl x) \<longleftrightarrow> (\<exists>m \<in> set ms. remote e m = None)"
proof (induction ms arbitrary: e acc)
  case Nil
  show ?case by simp
next
  case (Cons m ms)
  show ?case
  proof (cases "remote e m")
    case None
    then show ?thesis by (simp add: downloadMatrix_def)
  next
    case (Some b)
    then have d: "downloadMatrix e m = (e\<lparr>cache := (cache e)(m := Parsed b)\<rparr>, Inr b)"
      by (simp add: downloadMatrix_def)
    show ?thesis
      using Cons [of "e\<lparr>cache := (cache e)(m := Parsed b)\<rparr>" "map_set m b acc"] Some
      by (auto simp: d)
  qed
qed

lemma downloadAllMatrices_fails:
  "(\<exists>e' x. downloadAllMatrices e ms = (e', Inl x)) \<longleftrightarrow> (\<exists>m \<in> set ms. remote e m = None)"
proof -
  obtain e1 r1 where l: "download_loop ms e [] = (e1, r1)"
    by (cases "download_loop ms e []")
  have "(\<exists>e' x. downloadAllMatrices e ms = (e', Inl x)) \<longleftrightarrow> (\<exists>x. r1 = Inl x)"
    by (auto simp: downloadAllMatrices_def l split: sum.splits)
  also have "\<dots> \<longleftrightarrow> (\<exists>m \<in> set ms. remote e m = None)"
    using download_loop_fails [of ms e "[]"] by (simp add: l)
  finally show ?thesis .
qed

lemma isCacheStale_age:
  "metadata e = Meta (Some t) \<Longrightarrow> isCacheStale e i \<longleftrightarrow> i * 1000 < now e - t"
  by (simp add: isCacheStale_def)


text \<open>
  Claim C7, as \<^verbatim>\<open>initialize\<close> has it. For every configuration, environment and store:
  \<^item> when a document that is not falsy can be read from the cache for every configured
    matrix and the cache is not stale, the indexing loop runs on those documents and the
    environment is left as it is;
  \<^item> otherwise it downloads, and when every download succeeds the loop runs on what
    was fetched;
  \<^item> when a download fails and, after it, the cache is complete, the loop runs on the
    cached documents, whatever their age;
  \<^item> when a download fails and the cache is then not complete, the load error is
    reported and the store is left as it was; and the load error is reported in no
    other case;
  \<^item> the indexing loop on bundles is \<^verbatim>\<open>loadFromBundles\<close> and reports no error;
  \<^item> when every document that the cache holds or the server gives for a configured
    matrix is a bundle, an error is reported only after a failed download with no
    complete cache, before or after it, and then the store, its loaded flag included,
    is unchanged; and a complete cache before the call excludes an error, at any age
    and whatever the server does;
  \<^item> a download fails exactly when the server fails for some configured matrix; and
    with a readable metadata time the cache is stale exactly when its age is above the
    configured interval.
\<close>

theorem initialize_freshness_policy:
  "(loadCachedBundles e (matrices cfg) = Some docs \<and> \<not> isCacheStale e (updateInterval cfg)
      \<longrightarrow> initialize cfg e st = (e, index_all docs st))
   \<and> ((loadCachedBundles e (matrices cfg) = None \<or> isCacheStale e (updateInterval cfg))
        \<and> downloadAllMatrices e (matrices cfg) = (e1, Inr fetched)
      \<longrightarrow> initialize cfg e st = (e1, index_all fetched st))
   \<and> ((loadCachedBundles e (matrices cfg) = None \<or> isCacheStale e (updateInterval cfg))
        \<and> downloadAllMatrices e (matrices cfg) = (e2, Inl x)
        \<and> loadCachedBundles e2 (matrices cfg) = Some cached
      \<longrightarrow> initialize cfg e st = (e2, index_all cached st))
   \<and> ((loadCachedBundles e (matrices cfg) = None \<or> isCacheStale e (updateInterval cfg))
        \<and> downloadAllMatrices e (matrices cfg) = (e2, Inl x)
        \<and> loadCachedBundles e2 (matrices cfg) = None
      \<longrightarrow> initialize cfg e st = (e2, st, Some (LoadFailed x)))
   \<and> index_all (as_docs bs) st = (loadFromBundles bs st, None)
   \<and> (initialize cfg e st = (e3, st3, Some (LoadFailed y))
      \<longrightarrow> st3 = st \<and> downloadAllMatrices e (matrices cfg) = (e3, Inl y)
          \<and> loadCachedBundles e3 (matrices cfg) = None)
   \<and> (docs_are_bundles e (matrices cfg) \<and> initialize cfg e st = (e4, st4, Some err)
      \<longrightarrow> st4 = st
          \<and> (\<exists>z. err = LoadFailed z \<and> downloadAllMatrices e (matrices cfg) = (e4, Inl z))
          \<and> loadCachedBundles e4 (matrices cfg) = None
          \<and> loadCachedBundles e (matrices cfg) = None)
   \<and> (docs_are_bundles e (matrices cfg) \<and> loadCachedBundles e (matrices cfg) = Some docs
      \<longrightarrow> snd (snd (initialize cfg e st)) = None)
   \<and> ((\<exists>e' z. downloadAllMatrices e (matrices cfg) = (e', Inl z))
        \<longleftrightarrow> (\<exists>m \<in> set (matrices cfg). remote e m = None))
   \<and> (metadata e = Meta (Some t)
      \<longrightarrow> (isCacheStale e (updateInterval cfg) \<longleftrightarrow> updateInterval cfg * 1000 < now e - t))"
proof (intro conjI impI)
  assume "loadCachedBundles e (matrices cfg) = Some docs \<and> \<not> isCacheStale e (updateInterval cfg)"
  then show "initialize cfg e st = (e, index_all docs st)"
    using initialize_cached by blast
next
  assume "(loadCachedBundles e (matrices cfg) = None \<or> isCacheStale e (updateInterval cfg))
        \<and> downloadAllMatrices e (matrices cfg) = (e1, Inr fetched)"
  then show "initialize cfg e st = (e1, index_all fetched st)"
    using initialize_fetch [of e cfg st] by simp
next
  assume "(loadCachedBundles e (matrices cfg) = None \<or> isCacheStale e (updateInterval cfg))
        \<and> downloadAllMatrices e (matrices cfg) = (e2, Inl x)
        \<and> loadCachedBundles e2 (matrices cfg) = Some cached"
  then show "initialize cfg e st = (e2, index_all cached st)"
    using initialize_fetch [of e cfg st] by simp
next
  assume "(loadCachedBundles e (matrices cfg) = None \<or> isCacheStale e (updateInterval cfg))
        \<and> downloadAllMatrices e (matrices cfg) = (e2, Inl x)
        \<and> loadCachedBundles e2 (matrices cfg) = None"
  then show "initialize cfg e st = (e2, st, Some (LoadFailed x))"
    using initialize_fetch [of e cfg st] by simp
next
  show "index_all (as_docs bs) st = (loadFromBundles bs st, None)"
    by (rule index_all_as_docs)
next
  assume f: "initialize cfg e st = (e3, st3, Some (LoadFailed y))"
  from initialize_load_failed [OF f]
  show "st3 = st" and "downloadAllMatrices e (matrices cfg) = (e3, Inl y)"
    and "loadCachedBundles e3 (matrices cfg) = None"
    by blast+
next
  assume "docs_are_bundles e (matrices cfg) \<and> initialize cfg e st = (e4, st4, Some err)"
  then have b: "docs_are_bundles e (matrices cfg)"
    and i: "initialize cfg e st = (e4, st4, Some err)" by blast+
  from initialize_bundles_only [OF b i]
  show "st4 = st"
    and "\<exists>z. err = LoadFailed z \<and> downloadAllMatrices e (matrices cfg) = (e4, Inl z)"
    and "loadCachedBundles e4 (matrices cfg) = None"
    and "loadCachedBundles e (matrices cfg) = None"
    by blast+
next
  assume "docs_are_bundles e (matrices cfg) \<and> loadCachedBundles e (matrices cfg) = Some docs"
  then show "snd (snd (initialize cfg e st)) = None"
    using initialize_complete_cache_succeeds by blast
next
  show "(\<exists>e' z. downloadAllMatrices e (matrices cfg) = (e', Inl z))
        \<longleftrightarrow> (\<exists>m \<in> set (matrices cfg). remote e m = None)"
    by (rule downloadAllMatrices_fails)
next
  assume "metadata e = Meta (Some t)"
  then show "isCacheStale e (updateInterval cfg) \<longleftrightarrow> updateInterval cfg * 1000 < now e - t"
    by (rule isCacheStale_age)
qed

text \<open>The cache and the downloads in the example environments.\<close>

lemma ex_env_facts:
  "loadCachedBundles env_fresh (matrices ex_cfg) = Some [(Enterprise, JBundle [ex_apt28])]"
  "\<not> isCacheStale env_fresh (updateInterval ex_cfg)"
  "isCacheStale env_stale_up (updateInterval ex_cfg)"
  "isCacheStale env_stale_down (updateInterval ex_cfg)"
  "loadCachedBundles env_stale_down (matrices ex_cfg) = Some [(Enterprise, JBundle [ex_apt28])]"
  "loadCachedBundles env_empty_down (matrices ex_cfg) = None"
  "downloadAllMatrices env_stale_up (matrices ex_cfg) =
     (env_stale_up\<lparr>cache := (cache env_stale_up)(Enterprise := Parsed (JBundle [ex_mimikatz])),
                    metadata := Meta (Some (now env_stale_up))\<rparr>,
      Inr [(Enterprise, JBundle [ex_mimikatz])])"
  "downloadAllMatrices env_stale_down (matrices ex_cfg) =
     (env_stale_down, Inl (DownloadFailed Enterprise))"
  "downloadAllMatrices env_empty_down (matrices ex_cfg) =
     (env_empty_down, Inl (DownloadFailed Enterprise))"
  "docs_are_bundles env_fresh (matrices ex_cfg)"
  "docs_are_bundles env_empty_down (matrices ex_cfg)"
  "metadata env_fresh = Meta (Some 0)"
  by (simp_all add: ex_cfg_def env_fresh_def env_stale_up_def env_stale_down_def
        env_empty_down_def loadCachedBundles_def loadCachedBundle_def isCacheStale_def
        downloadAllMatrices_def downloadMatrix_def docs_are_bundles_def is_bundle_def)

lemma ex_bad_cache_facts:
  "loadCachedBundles env_bad_cache (matrices ex_cfg2) =
     Some [(Enterprise, JBundle [ex_apt28]), (Mobile, JOther)]"
  "\<not> isCacheStale env_bad_cache (updateInterval ex_cfg2)"
  "snd (downloadAllMatrices env_bad_cache (matrices ex_cfg2)) =
     Inr [(Enterprise, JBundle [ex_mimikatz]), (Mobile, JBundle [ex_mimikatz])]"
  "index_all [(Enterprise, JBundle [ex_apt28]), (Mobile, JOther)] new_store =
     (indexBundle [ex_apt28] new_store, Some TypeError)"
  by (simp_all add: ex_cfg2_def env_bad_cache_def loadCachedBundles_def loadCachedBundle_def
        isCacheStale_def downloadAllMatrices_def downloadMatrix_def index_all_def
        map_values_def)

text \<open>
  \<^verbatim>\<open>initialize\<close> on a new store in the four environments of one matrix: the fresh cache
  is used, the stale cache is replaced by the download, the stale cache is used when the
  server is down, and with no cache and the server down the call fails.
\<close>

theorem initialize_freshness_policy_witness:
  "initialize ex_cfg env_fresh new_store =
     (env_fresh, loadFromBundles [(Enterprise, [ex_apt28])] new_store, None)
   \<and> initialize ex_cfg env_stale_up new_store =
     (env_stale_up\<lparr>cache := (cache env_stale_up)(Enterprise := Parsed (JBundle [ex_mimikatz])),
                    metadata := Meta (Some (now env_stale_up))\<rparr>,
      loadFromBundles [(Enterprise, [ex_mimikatz])] new_store, None)
   \<and> initialize ex_cfg env_stale_down new_store =
     (env_stale_down, loadFromBundles [(Enterprise, [ex_apt28])] new_store, None)
   \<and> initialize ex_cfg env_empty_down new_store =
     (env_empty_down, new_store, Some (LoadFailed (DownloadFailed Enterprise)))
   \<and> snd (snd (initialize ex_cfg env_fresh new_store)) = None
   \<and> downloadAllMatrices env_empty_down (matrices ex_cfg)
       = (env_empty_down, Inl (DownloadFailed Enterprise))
   \<and> loadCachedBundles env_empty_down (matrices ex_cfg) = None
   \<and> (isCacheStale env_fresh (updateInterval ex_cfg)
        \<longleftrightarrow> updateInterval ex_cfg * 1000 < now env_fresh - 0)"
proof -
  have docs: "as_docs [(Enterprise, [ex_apt28])] = [(Enterprise, JBundle [ex_apt28])]"
    "as_docs [(Enterprise, [ex_mimikatz])] = [(Enterprise, JBundle [ex_mimikatz])]"
    by (simp_all add: as_docs_def)
  note fresh = initialize_freshness_policy
    [where e = env_fresh and cfg = ex_cfg and st = new_store
       and docs = "[(Enterprise, JBundle [ex_apt28])]" and t = 0
       and bs = "[(Enterprise, [ex_apt28])]"]
  note up = initialize_freshness_policy
    [where e = env_stale_up and cfg = ex_cfg and st = new_store
       and ?e1.0 = "env_stale_up\<lparr>cache := (cache env_stale_up)(Enterprise := Parsed (JBundle [ex_mimikatz])),
                    metadata := Meta (Some (now env_stale_up))\<rparr>"
       and fetched = "[(Enterprise, JBundle [ex_mimikatz])]"
       and bs = "[(Enterprise, [ex_mimikatz])]"]
  note down = initialize_freshness_policy
    [where e = env_stale_down and cfg = ex_cfg and st = new_store
       and ?e2.0 = env_stale_down and x = "DownloadFailed Enterprise"
       and cached = "[(Enterprise, JBundle [ex_apt28])]"]
  note empty = initialize_freshness_policy
    [where e = env_empty_down and cfg = ex_cfg and st = new_store
       and ?e2.0 = env_empty_down and x = "DownloadFailed Enterprise"
       and ?e3.0 = env_empty_down and ?st3.0 = new_store
       and y = "DownloadFailed Enterprise"
       and ?e4.0 = env_empty_down and ?st4.0 = new_store
       and err = "LoadFailed (DownloadFailed Enterprise)"]
  have 1: "initialize ex_cfg env_fresh new_store =
     (env_fresh, loadFromBundles [(Enterprise, [ex_apt28])] new_store, None)"
    using fresh ex_env_facts docs by metis
  have 2: "initialize ex_cfg env_stale_up new_store =
     (env_stale_up\<lparr>cache := (cache env_stale_up)(Enterprise := Parsed (JBundle [ex_mimikatz])),
                    metadata := Meta (Some (now env_stale_up))\<rparr>,
      loadFromBundles [(Enterprise, [ex_mimikatz])] new_store, None)"
    using up ex_env_facts docs by metis
  have 3: "initialize ex_cfg env_stale_down new_store =
     (env_stale_down, loadFromBundles [(Enterprise, [ex_apt28])] new_store, None)"
    using down fresh ex_env_facts docs by metis
  have 4: "initialize ex_cfg env_empty_down new_store =
     (env_empty_down, new_store, Some (LoadFailed (DownloadFailed Enterprise)))"
    using empty ex_env_facts by blast
  have 5: "snd (snd (initialize ex_cfg env_fresh new_store)) = None"
    using fresh ex_env_facts by blast
  have 6: "downloadAllMatrices env_empty_down (matrices ex_cfg)
       = (env_empty_down, Inl (DownloadFailed Enterprise))
     \<and> loadCachedBundles env_empty_down (matrices ex_cfg) = None"
    using empty 4 by blast
  have 7: "loadCachedBundles env_empty_down (matrices ex_cfg) = None"
    using empty 4 ex_env_facts(11) by blast
  have 9: "isCacheStale env_fresh (updateInterval ex_cfg)
        \<longleftrightarrow> updateInterval ex_cfg * 1000 < now env_fresh - 0"
    using fresh ex_env_facts(12) by blast
  from 1 2 3 4 5 6 7 9 show ?thesis by blast
qed

text \<open>
  A fresh and complete cache whose second file holds \<^verbatim>\<open>{}\<close>, with the server up:
  \<^verbatim>\<open>initialize\<close> throws a \<^verbatim>\<open>TypeError\<close> from its indexing loop. No download was
  attempted (the environment is unchanged, and a download would have succeeded), and
  the bundle of the first file stays indexed: the group G0007, unknown to the store
  before the call, is found after it.
\<close>

theorem initialize_throws_on_cached_non_bundle_counterexample:
  "loadCachedBundles env_bad_cache (matrices ex_cfg2) =
     Some [(Enterprise, JBundle [ex_apt28]), (Mobile, JOther)]
   \<and> \<not> isCacheStale env_bad_cache (updateInterval ex_cfg2)
   \<and> snd (downloadAllMatrices env_bad_cache (matrices ex_cfg2)) =
       Inr [(Enterprise, JBundle [ex_mimikatz]), (Mobile, JBundle [ex_mimikatz])]
   \<and> initialize ex_cfg2 env_bad_cache new_store =
       (env_bad_cache, indexBundle [ex_apt28] new_store, Some TypeError)
   \<and> getGroup new_store ''G0007'' = None
   \<and> getGroup (indexBundle [ex_apt28] new_store) ''G0007'' = Some (group_of ex_apt28)"
proof -
  have i: "initialize ex_cfg2 env_bad_cache new_store =
       (env_bad_cache, indexBundle [ex_apt28] new_store, Some TypeError)"
    using initialize_cached [of env_bad_cache ex_cfg2 _ new_store] ex_bad_cache_facts
    by simp
  have g: "getGroup new_store ''G0007'' = None"
    "getGroup (indexBundle [ex_apt28] new_store) ''G0007'' = Some (group_of ex_apt28)"
    by code_simp+
  from i g ex_bad_cache_facts(1-3) show ?thesis by simp
qed

end
